theory Spec2Isabelle
  imports Main "HOL-Library.Word"
begin

section \<open>Data model\<close>

text \<open>
  The in-place rolling update of the machine controller manager
  (\<^verbatim>\<open>src/unnamed/part_000\<close>, the automatic variant, and
  \<^verbatim>\<open>src/pkg/controller/deployment_onlabel.go\<close>, the manual variant).
  Go's \<^verbatim>\<open>int32\<close> is a 32-bit word read in two's complement: \<open>+\<close> and \<open>-\<close>
  wrap around, comparisons are the signed ones. A label map is an association list read
  through \<open>map_of\<close>.
\<close>

type_synonym int32 = "32 word"
type_synonym labels = "(string \<times> string) list"

record machine =
  mName :: string
  mNamespace :: string
  mUID :: string
  mLabels :: labels

record node =
  nName :: string
  nLabels :: labels
  nUnschedulable :: bool

text \<open>A machine set: \<open>isReplicas\<close> is \<^verbatim>\<open>Spec.Replicas\<close> of the object the pass holds,
  \<open>isSelector\<close> is \<^verbatim>\<open>Spec.Selector.MatchLabels\<close>, \<open>isAvailableReplicas\<close> is
  \<^verbatim>\<open>Status.AvailableReplicas\<close>.\<close>

record machineSet =
  isName :: string
  isUID :: string
  isReplicas :: int32
  isSelector :: labels
  isAvailableReplicas :: int32
  isCreationTimestamp :: int

record machineDeployment =
  dName :: string
  dReplicas :: int32
  dStrategy :: string
  dStatus :: string

subsection \<open>Errors\<close>

text \<open>An error of a remote call or lister (\<open>apierr\<close>), and the errors the functions
  return: a collaborator's error passed on, the errors built with \<^verbatim>\<open>fmt.Errorf\<close>,
  and the run-time panic of a slice expression with a negative bound.\<close>

datatype apierr = NotFound | ApiFailure nat

datatype error =
    ApiError apierr
  | InvalidRequest string int32 int32
  | UncordonFailed string
  | LabelCandidateFailed error
  | SyncMachineSetsFailed error
  | SliceBoundsPanic

fun IsNotFound :: "error \<Rightarrow> bool" where
  "IsNotFound (ApiError NotFound) = True"
| "IsNotFound _ = False"

subsection \<open>The cluster as the pass sees it\<close>

text \<open>
  Every call to a collaborator is written to \<open>trace\<close> with its outcome, in order.
  The outcome of a call is what \<open>faults\<close> says for its position in the trace and the
  call itself: \<open>None\<close> is success. The listers read the snapshots \<open>machineCache\<close>
  and \<open>nodeCache\<close>; \<open>apiNodes\<close> are the node objects of the target cluster;
  \<open>replicasStore\<close> is the desired replica count the API server holds for each machine
  set, by name.
\<close>

datatype patch =
    LabelsPatch labels
  | OwnerPatch string string labels string

datatype call =
    ListMachines labels
  | ListNodes labels
  | ListerGetNode string
  | GetNode string
  | PatchMachine string string patch
  | UpdateNode node
  | ScaleMachineSet string int32

record world =
  machineCache :: "machine list"
  nodeCache :: "node list"
  apiNodes :: "node list"
  replicasStore :: "string \<Rightarrow> int32"
  faults :: "nat \<Rightarrow> call \<Rightarrow> apierr option"
  trace :: "(call \<times> apierr option) list"

definition invoke :: "call \<Rightarrow> world \<Rightarrow> apierr option \<times> world" where
  "invoke c w =
     (let r = faults w (length (trace w)) c
      in (r, w\<lparr>trace := trace w @ [(c, r)]\<rparr>))"

subsection \<open>Label keys and label maps\<close>

text \<open>Modelled from the spec: the label keys are constants of the API package, which is
  not among the sources; the spec names them candidate-for-update, selected-for-update and
  update-successful, and the comment above the transfer step gives the prefix. The key
  that links a machine to its node is called \<open>NodeLabelKey\<close> in the source.\<close>

definition LabelKeyMachineCandidateForUpdate :: string where
  "LabelKeyMachineCandidateForUpdate = ''node.machine.sapcloud.io/candidate-for-update''"

definition LabelKeyMachineSelectedForUpdate :: string where
  "LabelKeyMachineSelectedForUpdate = ''node.machine.sapcloud.io/selected-for-update''"

definition LabelKeyMachineUpdateSuccessful :: string where
  "LabelKeyMachineUpdateSuccessful = ''node.machine.sapcloud.io/update-successful''"

definition NodeLabelKey :: string where
  "NodeLabelKey = ''node''"

text \<open>Go's \<^verbatim>\<open>m[k]\<close> on a string map: the empty string for a missing key.\<close>

definition lookupLabel :: "labels \<Rightarrow> string \<Rightarrow> string" where
  "lookupLabel ls k = (case map_of ls k of None \<Rightarrow> [] | Some v \<Rightarrow> v)"

text \<open>Modelled from the spec: \<^verbatim>\<open>MergeStringMaps\<close> is a helper of the repository that
  is not among the sources; the spec describes the merge helpers as pure functions with
  the precedence (base, overridden-by). The entries of \<open>newMap\<close> override those of
  \<open>oldMap\<close>.\<close>

definition MergeStringMaps :: "labels \<Rightarrow> labels \<Rightarrow> labels" where
  "MergeStringMaps oldMap newMap = newMap @ oldMap"

text \<open>\<^verbatim>\<open>labels.SelectorFromSet\<close>: an object matches when it carries every key of the
  set with the set's value.\<close>

definition matchesSelector :: "labels \<Rightarrow> labels \<Rightarrow> bool" where
  "matchesSelector sel ls = list_all (\<lambda>k. map_of ls k = map_of sel k) (map fst sel)"

subsection \<open>Collaborators\<close>

definition machineLister_List :: "labels \<Rightarrow> world \<Rightarrow> (error + machine list) \<times> world" where
  "machineLister_List sel w =
     (case invoke (ListMachines sel) w of
        (Some e, w1) \<Rightarrow> (Inl (ApiError e), w1)
      | (None, w1) \<Rightarrow>
          (Inr (filter (\<lambda>m. matchesSelector sel (mLabels m)) (machineCache w1)), w1))"

definition nodeLister_List :: "labels \<Rightarrow> world \<Rightarrow> (error + node list) \<times> world" where
  "nodeLister_List sel w =
     (case invoke (ListNodes sel) w of
        (Some e, w1) \<Rightarrow> (Inl (ApiError e), w1)
      | (None, w1) \<Rightarrow>
          (Inr (filter (\<lambda>n. matchesSelector sel (nLabels n)) (nodeCache w1)), w1))"

text \<open>A lookup by name answers not-found when no node has the name.\<close>

definition nodeLister_Get :: "string \<Rightarrow> world \<Rightarrow> (error + node) \<times> world" where
  "nodeLister_Get name w =
     (case invoke (ListerGetNode name) w of
        (Some e, w1) \<Rightarrow> (Inl (ApiError e), w1)
      | (None, w1) \<Rightarrow>
          (case find (\<lambda>n. nName n = name) (nodeCache w1) of
             None \<Rightarrow> (Inl (ApiError NotFound), w1)
           | Some n \<Rightarrow> (Inr n, w1)))"

definition nodes_Get :: "string \<Rightarrow> world \<Rightarrow> (error + node) \<times> world" where
  "nodes_Get name w =
     (case invoke (GetNode name) w of
        (Some e, w1) \<Rightarrow> (Inl (ApiError e), w1)
      | (None, w1) \<Rightarrow>
          (case find (\<lambda>n. nName n = name) (apiNodes w1) of
             None \<Rightarrow> (Inl (ApiError NotFound), w1)
           | Some n \<Rightarrow> (Inr n, w1)))"

definition nodes_Update :: "node \<Rightarrow> world \<Rightarrow> error option \<times> world" where
  "nodes_Update n w =
     (case invoke (UpdateNode n) w of
        (Some e, w1) \<Rightarrow> (Some (ApiError e), w1)
      | (None, w1) \<Rightarrow>
          (None, w1\<lparr>apiNodes := map (\<lambda>x. if nName x = nName n then n else x) (apiNodes w1)\<rparr>))"

definition machineControl_PatchMachine ::
  "string \<Rightarrow> string \<Rightarrow> patch \<Rightarrow> world \<Rightarrow> error option \<times> world" where
  "machineControl_PatchMachine ns name p w =
     (case invoke (PatchMachine ns name p) w of
        (Some e, w1) \<Rightarrow> (Some (ApiError e), w1)
      | (None, w1) \<Rightarrow> (None, w1))"

text \<open>Modelled from the spec: \<^verbatim>\<open>scaleMachineSetAndRecordEvent\<close> is a method of the
  repository that is not among the sources. The spec: a remote, fallible call that scales
  a generation to a target replica count and records an event; its first result says
  whether any scaling occurred. The deployment is only used for the event.\<close>

definition scaleMachineSetAndRecordEvent ::
  "machineSet \<Rightarrow> int32 \<Rightarrow> machineDeployment \<Rightarrow> world \<Rightarrow> (bool \<times> error option) \<times> world" where
  "scaleMachineSetAndRecordEvent is newScale deployment w =
     (case invoke (ScaleMachineSet (isName is) newScale) w of
        (Some e, w1) \<Rightarrow> ((False, Some (ApiError e)), w1)
      | (None, w1) \<Rightarrow>
          ((isReplicas is \<noteq> newScale, None),
           w1\<lparr>replicasStore := (replicasStore w1)(isName is := newScale)\<rparr>))"

section \<open>Selecting machines for drain\<close>

text \<open>\<^verbatim>\<open>getMachinesForDrain\<close>. The slice expression
  \<^verbatim>\<open>machinesWithoutSelectedForUpdate[:readyForDrain]\<close> panics when
  \<open>readyForDrain\<close> is negative.\<close>

definition getMachinesForDrain ::
  "machineSet \<Rightarrow> int32 \<Rightarrow> world \<Rightarrow> (error + machine list) \<times> world" where
  "getMachinesForDrain is readyForDrain w =
     (case machineLister_List
             (MergeStringMaps (isSelector is) [(LabelKeyMachineCandidateForUpdate, ''true'')]) w of
        (Inl err, w1) \<Rightarrow> (Inl err, w1)
      | (Inr machines, w1) \<Rightarrow>
          (let machinesWithoutSelectedForUpdate =
                 filter (\<lambda>m. map_of (mLabels m) LabelKeyMachineSelectedForUpdate = None) machines
           in if sint readyForDrain < int (length machinesWithoutSelectedForUpdate)
              then (if sint readyForDrain < 0 then (Inl SliceBoundsPanic, w1)
                    else (Inr (take (nat (sint readyForDrain)) machinesWithoutSelectedForUpdate), w1))
              else (Inr machinesWithoutSelectedForUpdate, w1)))"

section \<open>Helpers and collaborators that are not among the sources\<close>

text \<open>
  The functions below call helpers and methods of the repository whose code is not among
  the sources. They are fields of the controller, so that every theorem holds for any
  implementation of them: \<open>MaxUnavailable\<close> (from the deployment's strategy),
  \<open>getMachineFromNode\<close>, \<open>MergeWithOverwriteAndFilter\<close>,
  \<open>FilterActiveMachineSets\<close>, \<open>MachineDeploymentComplete\<close> and the methods the
  two rollout functions call before and after the transfer and selection steps.
  \<open>autoscalerScaleDownAnnotationDuringRollout\<close> is the controller's flag.
\<close>

record controller =
  autoscalerScaleDownAnnotationDuringRollout :: bool
  MaxUnavailable :: "machineDeployment \<Rightarrow> int32"
  getMachineFromNode :: "machine list \<Rightarrow> node \<Rightarrow> error + machine"
  MergeWithOverwriteAndFilter :: "labels \<Rightarrow> labels \<Rightarrow> labels \<Rightarrow> labels"
  FilterActiveMachineSets :: "machineSet list \<Rightarrow> machineSet list"
  MachineDeploymentComplete :: "machineDeployment \<Rightarrow> bool"
  getAllMachineSetsAndSyncRevision ::
    "machineDeployment \<Rightarrow> machineSet list \<Rightarrow> (string \<times> machine list) list \<Rightarrow> bool \<Rightarrow> world
       \<Rightarrow> (error + machineSet \<times> machineSet list) \<times> world"
  taintNodesBackingMachineSets :: "machineSet list \<Rightarrow> world \<Rightarrow> error option \<times> world"
  machineSetsScaledToZero :: "machineSet list \<Rightarrow> world \<Rightarrow> bool"
  annotateNodesBackingMachineSets :: "machineSet list \<Rightarrow> labels \<Rightarrow> world \<Rightarrow> error option \<times> world"
  labelMachineSets :: "machineSet list \<Rightarrow> labels \<Rightarrow> world \<Rightarrow> error option \<times> world"
  syncMachineSets ::
    "machineSet list \<Rightarrow> machineSet \<Rightarrow> machineDeployment \<Rightarrow> world \<Rightarrow> error option \<times> world"
  syncRolloutStatus ::
    "machineSet list \<Rightarrow> machineSet \<Rightarrow> machineDeployment \<Rightarrow> world \<Rightarrow> error option \<times> world"
  removeAutoscalerAnnotationsIfRequired ::
    "machineSet list \<Rightarrow> labels \<Rightarrow> world \<Rightarrow> error option \<times> world"
  cleanupMachineDeployment ::
    "machineSet list \<Rightarrow> machineDeployment \<Rightarrow> world \<Rightarrow> error option \<times> world"

text \<open>Modelled from the spec: the totals of desired and of available replicas across a
  set of generations (\<^verbatim>\<open>GetReplicaCountForMachineSets\<close>,
  \<^verbatim>\<open>GetAvailableReplicaCountForMachineSets\<close>), summed as \<^verbatim>\<open>int32\<close>.\<close>

definition GetReplicaCountForMachineSets :: "machineSet list \<Rightarrow> int32" where
  "GetReplicaCountForMachineSets machineSets = sum_list (map isReplicas machineSets)"

definition GetAvailableReplicaCountForMachineSets :: "machineSet list \<Rightarrow> int32" where
  "GetAvailableReplicaCountForMachineSets machineSets =
     sum_list (map isAvailableReplicas machineSets)"

text \<open>Modelled from the spec: \<^verbatim>\<open>sort.Sort(MachineSetsByCreationTimestamp(oldISs))\<close>
  orders the generations by creation timestamp, ascending. The order of generations with
  the same timestamp is not specified; here they keep their order.\<close>

definition sortByCreationTimestamp :: "machineSet list \<Rightarrow> machineSet list" where
  "sortByCreationTimestamp oldISs = sort_key isCreationTimestamp oldISs"

text \<open>\<^verbatim>\<open>integer.IntMin\<close> of \<^verbatim>\<open>k8s.io/utils\<close>, on Go's 64-bit \<^verbatim>\<open>int\<close>.\<close>

definition IntMin :: "int \<Rightarrow> int \<Rightarrow> int" where
  "IntMin a b = (if a < b then a else b)"

section \<open>Selecting machines of the old generations for update\<close>

text \<open>The loop of \<^verbatim>\<open>labelMachinesToSelectedForUpdate\<close> over the machines chosen for
  drain; the counter is \<^verbatim>\<open>machinesSelectedForUpdate\<close>.\<close>

fun labelSelectedLoop :: "machine list \<Rightarrow> int32 \<Rightarrow> world \<Rightarrow> (int32 \<times> error option) \<times> world" where
  "labelSelectedLoop [] machinesSelectedForUpdate w = ((machinesSelectedForUpdate, None), w)"
| "labelSelectedLoop (machine # machines) machinesSelectedForUpdate w =
     (case machineControl_PatchMachine (mNamespace machine) (mName machine)
             (LabelsPatch (MergeStringMaps (mLabels machine)
                [(LabelKeyMachineSelectedForUpdate, ''true'')])) w of
        (Some err, w1) \<Rightarrow> ((machinesSelectedForUpdate, Some err), w1)
      | (None, w1) \<Rightarrow> labelSelectedLoop machines (machinesSelectedForUpdate + 1) w1)"

definition labelMachinesToSelectedForUpdate ::
  "machineSet \<Rightarrow> int32 \<Rightarrow> world \<Rightarrow> (int32 \<times> error option) \<times> world" where
  "labelMachinesToSelectedForUpdate is newScale w =
     (let readyForDrain = isReplicas is - newScale
      in case getMachinesForDrain is readyForDrain w of
           (Inl err, w1) \<Rightarrow> ((0, Some err), w1)
         | (Inr machines, w1) \<Rightarrow> labelSelectedLoop machines 0 w1)"

text \<open>\<^verbatim>\<open>getMachinesUndergoingUpdate\<close>; the accumulator is
  \<^verbatim>\<open>machineInUpdateProcess\<close>.\<close>

fun undergoingLoop :: "machineSet list \<Rightarrow> int32 \<Rightarrow> world \<Rightarrow> (int32 \<times> error option) \<times> world" where
  "undergoingLoop [] machineInUpdateProcess w = ((machineInUpdateProcess, None), w)"
| "undergoingLoop (is # oldISs) machineInUpdateProcess w =
     (case machineLister_List
             (MergeStringMaps (isSelector is) [(LabelKeyMachineSelectedForUpdate, ''true'')]) w of
        (Inl err, w1) \<Rightarrow> ((0, Some err), w1)
      | (Inr machines, w1) \<Rightarrow>
          undergoingLoop oldISs (machineInUpdateProcess + of_nat (length machines)) w1)"

definition getMachinesUndergoingUpdate ::
  "machineSet list \<Rightarrow> world \<Rightarrow> (int32 \<times> error option) \<times> world" where
  "getMachinesUndergoingUpdate oldISs w = undergoingLoop oldISs 0 w"

text \<open>The loop of \<^verbatim>\<open>selectMachineForUpdate\<close> over the sorted old generations:
  \<open>totalReadyForUpdate\<close> counts the machines selected so far,
  \<open>totalReadyForUpdateCount\<close> is the budget.\<close>

fun selectLoop ::
  "machineSet list \<Rightarrow> int32 \<Rightarrow> int32 \<Rightarrow> world \<Rightarrow> (int32 \<times> error option) \<times> world" where
  "selectLoop [] totalReadyForUpdate totalReadyForUpdateCount w =
     ((totalReadyForUpdate, None), w)"
| "selectLoop (targetIS # oldISs) totalReadyForUpdate totalReadyForUpdateCount w =
     (if totalReadyForUpdateCount \<le>s totalReadyForUpdate
      then ((totalReadyForUpdate, None), w)
      else if isReplicas targetIS = 0
      then selectLoop oldISs totalReadyForUpdate totalReadyForUpdateCount w
      else
        (let readyForUpdateCount =
               (word_of_int (IntMin (sint (isReplicas targetIS))
                  (sint (totalReadyForUpdateCount - totalReadyForUpdate))) :: int32);
             newReplicasCount = isReplicas targetIS - readyForUpdateCount
         in if isReplicas targetIS <s newReplicasCount
            then ((0, Some (InvalidRequest (isName targetIS) (isReplicas targetIS) newReplicasCount)), w)
            else
              (case labelMachinesToSelectedForUpdate targetIS newReplicasCount w of
                 ((machinesSelectedForUpdate, Some err), w1) \<Rightarrow>
                   ((totalReadyForUpdate + machinesSelectedForUpdate, Some err), w1)
               | ((machinesSelectedForUpdate, None), w1) \<Rightarrow>
                   selectLoop oldISs (totalReadyForUpdate + machinesSelectedForUpdate)
                     totalReadyForUpdateCount w1)))"

definition selectMachineForUpdate ::
  "controller \<Rightarrow> machineSet list \<Rightarrow> machineSet list \<Rightarrow> machineDeployment \<Rightarrow> int32 \<Rightarrow> world
     \<Rightarrow> (int32 \<times> error option) \<times> world" where
  "selectMachineForUpdate dc allISs oldISs deployment oldISsMachinesUndergoingUpdate w =
     (let maxUnavailable = MaxUnavailable dc deployment;
          minAvailable = dReplicas deployment - maxUnavailable;
          availableMachineCount =
            GetAvailableReplicaCountForMachineSets allISs - oldISsMachinesUndergoingUpdate
      in if availableMachineCount \<le>s minAvailable
         then ((0, None), w)
         else selectLoop (sortByCreationTimestamp oldISs) 0 (availableMachineCount - minAvailable) w)"

text \<open>The budget of \<^verbatim>\<open>reconcileOldMachineSetsInPlace\<close>, as the function computes it
  once the machines undergoing update are counted.\<close>

definition maxUpdatePossible ::
  "controller \<Rightarrow> machineSet list \<Rightarrow> machineSet \<Rightarrow> machineDeployment \<Rightarrow> int32 \<Rightarrow> int32" where
  "maxUpdatePossible dc allISs newIS deployment oldISsMachinesUndergoingUpdate =
     (let allMachinesCount = GetReplicaCountForMachineSets allISs;
          maxUnavailable = MaxUnavailable dc deployment;
          minAvailable = dReplicas deployment - maxUnavailable;
          newISUnavailableMachineCount = isReplicas newIS - isAvailableReplicas newIS
      in allMachinesCount - minAvailable - newISUnavailableMachineCount
           - oldISsMachinesUndergoingUpdate)"

definition reconcileOldMachineSetsInPlace ::
  "controller \<Rightarrow> machineSet list \<Rightarrow> machineSet list \<Rightarrow> machineSet \<Rightarrow> machineDeployment \<Rightarrow> world
     \<Rightarrow> (bool \<times> error option) \<times> world" where
  "reconcileOldMachineSetsInPlace dc allISs oldISs newIS deployment w =
     (let oldMachinesCount = GetReplicaCountForMachineSets oldISs
      in if oldMachinesCount = 0 then ((False, None), w)
         else
           (case getMachinesUndergoingUpdate oldISs w of
              ((oldISsMachinesUndergoingUpdate, Some err), w1) \<Rightarrow> ((False, Some err), w1)
            | ((oldISsMachinesUndergoingUpdate, None), w1) \<Rightarrow>
                if maxUpdatePossible dc allISs newIS deployment oldISsMachinesUndergoingUpdate \<le>s 0
                then ((False, None), w1)
                else
                  (case selectMachineForUpdate dc allISs oldISs deployment
                          oldISsMachinesUndergoingUpdate w1 of
                     ((machinesSelectedForUpdate, Some err), w2) \<Rightarrow> ((False, Some err), w2)
                   | ((machinesSelectedForUpdate, None), w2) \<Rightarrow>
                       ((0 <s machinesSelectedForUpdate, None), w2))))"

section \<open>Transferring updated machines to the new generation\<close>

text \<open>
  The loop of \<^verbatim>\<open>reconcileNewMachineSetInPlace\<close> over the nodes labelled
  update-successful, for one old generation \<open>is\<close>. It either leaves the function
  (\<open>Inl\<close>, with the function's results) or ends with the counters
  \<^verbatim>\<open>transfferedMachineCount\<close> and \<^verbatim>\<open>addedNewReplicasCount\<close> (\<open>Inr\<close>).
  The node object comes from the lister's cache, so clearing its unschedulable flag
  changes the cached object.
\<close>

fun transferNodes ::
  "controller \<Rightarrow> machineSet \<Rightarrow> machineSet \<Rightarrow> machineDeployment \<Rightarrow> machine list \<Rightarrow> node list
     \<Rightarrow> int32 \<Rightarrow> int32 \<Rightarrow> world \<Rightarrow> ((bool \<times> error option) + (int32 \<times> int32)) \<times> world" where
  "transferNodes dc is newIS deployment machines [] transfferedMachineCount
       addedNewReplicasCount w =
     (Inr (transfferedMachineCount, addedNewReplicasCount), w)"
| "transferNodes dc is newIS deployment machines (node # nodes) transfferedMachineCount
       addedNewReplicasCount w =
     (case getMachineFromNode dc machines node of
        Inl _ \<Rightarrow>
          transferNodes dc is newIS deployment machines nodes transfferedMachineCount
            addedNewReplicasCount w
      | Inr machine \<Rightarrow>
          (let machineNewLabels =
                 MergeStringMaps
                   (MergeWithOverwriteAndFilter dc (mLabels machine) (isSelector is)
                      (isSelector newIS))
                   [(LabelKeyMachineUpdateSuccessful, ''true'')]
           in case machineControl_PatchMachine (mNamespace machine) (mName machine)
                     (OwnerPatch (isName newIS) (isUID newIS) machineNewLabels (mUID machine)) w of
                (Some err, w1) \<Rightarrow>
                  (case scaleMachineSetAndRecordEvent newIS
                          (isReplicas newIS + addedNewReplicasCount) deployment w1 of
                     ((scaled, Some err2), w2) \<Rightarrow>
                       (Inl (0 <s addedNewReplicasCount, Some err2), w2)
                   | ((scaled, None), w2) \<Rightarrow>
                       (case scaleMachineSetAndRecordEvent is
                               (isReplicas is - transfferedMachineCount) deployment w2 of
                          ((_, Some err2), w3) \<Rightarrow>
                            (Inl (0 <s addedNewReplicasCount, Some err), w3)
                        | ((_, None), w3) \<Rightarrow> (Inl (scaled, Some err), w3)))
              | (None, w1) \<Rightarrow>
                  (let node' = node\<lparr>nUnschedulable := False\<rparr>;
                       w1' = w1\<lparr>nodeCache :=
                               map (\<lambda>x. if nName x = nName node then node' else x) (nodeCache w1)\<rparr>
                   in case nodes_Update node' w1' of
                        (Some _, w2) \<Rightarrow> (Inl (False, Some (UncordonFailed (nName node))), w2)
                      | (None, w2) \<Rightarrow>
                          transferNodes dc is newIS deployment machines nodes
                            (transfferedMachineCount + 1) (addedNewReplicasCount + 1) w2)))"

text \<open>The loop over the old generations.\<close>

fun transferMachineSets ::
  "controller \<Rightarrow> machineSet list \<Rightarrow> machineSet \<Rightarrow> machineDeployment \<Rightarrow> int32 \<Rightarrow> world
     \<Rightarrow> ((bool \<times> error option) + int32) \<times> world" where
  "transferMachineSets dc [] newIS deployment addedNewReplicasCount w =
     (Inr addedNewReplicasCount, w)"
| "transferMachineSets dc (is # oldISs) newIS deployment addedNewReplicasCount w =
     (case machineLister_List (isSelector is) w of
        (Inl err, w1) \<Rightarrow> (Inl (False, Some err), w1)
      | (Inr machines, w1) \<Rightarrow>
          (case nodeLister_List [(LabelKeyMachineUpdateSuccessful, ''true'')] w1 of
             (Inl err, w2) \<Rightarrow> (Inl (False, Some err), w2)
           | (Inr nodes, w2) \<Rightarrow>
               (case transferNodes dc is newIS deployment machines nodes 0
                       addedNewReplicasCount w2 of
                  (Inl r, w3) \<Rightarrow> (Inl r, w3)
                | (Inr (transfferedMachineCount, added), w3) \<Rightarrow>
                    (case scaleMachineSetAndRecordEvent is
                            (isReplicas is - transfferedMachineCount) deployment w3 of
                       ((_, Some err), w4) \<Rightarrow> (Inl (0 <s added, Some err), w4)
                     | ((_, None), w4) \<Rightarrow>
                         transferMachineSets dc oldISs newIS deployment added w4))))"

definition reconcileNewMachineSetInPlace ::
  "controller \<Rightarrow> machineSet list \<Rightarrow> machineSet \<Rightarrow> machineDeployment \<Rightarrow> world
     \<Rightarrow> (bool \<times> error option) \<times> world" where
  "reconcileNewMachineSetInPlace dc oldISs newIS deployment w =
     (if isReplicas newIS = dReplicas deployment then ((False, None), w)
      else if dReplicas deployment <s isReplicas newIS
      then scaleMachineSetAndRecordEvent newIS (dReplicas deployment) deployment w
      else
        (case transferMachineSets dc oldISs newIS deployment 0 w of
           (Inl r, w1) \<Rightarrow> (r, w1)
         | (Inr addedNewReplicasCount, w1) \<Rightarrow>
             scaleMachineSetAndRecordEvent newIS (isReplicas newIS + addedNewReplicasCount)
               deployment w1))"

section \<open>Labelling candidates, and the manual variant's selection\<close>

text \<open>The loop of \<^verbatim>\<open>labelNodesBackingMachineSets\<close> over the machines of one
  machine set.\<close>

fun labelCandidateMachines :: "machine list \<Rightarrow> world \<Rightarrow> error option \<times> world" where
  "labelCandidateMachines [] w = (None, w)"
| "labelCandidateMachines (machine # filteredMachines) w =
     (if lookupLabel (mLabels machine) NodeLabelKey \<noteq> []
      then
        (case machineControl_PatchMachine (mNamespace machine) (mName machine)
                (LabelsPatch (MergeStringMaps (mLabels machine)
                   [(LabelKeyMachineCandidateForUpdate, ''true'')])) w of
           (Some err, w1) \<Rightarrow> (Some err, w1)
         | (None, w1) \<Rightarrow>
             (case nodeLister_Get (lookupLabel (mLabels machine) NodeLabelKey) w1 of
                (Inl err, w2) \<Rightarrow>
                  (if IsNotFound err then labelCandidateMachines filteredMachines w2
                   else (Some err, w2))
              | (Inr node, w2) \<Rightarrow>
                  (if lookupLabel (nLabels node) LabelKeyMachineCandidateForUpdate = ''true''
                   then labelCandidateMachines filteredMachines w2
                   else
                     (case nodes_Update
                             (node\<lparr>nLabels := (LabelKeyMachineCandidateForUpdate, ''true'')
                                                 # nLabels node\<rparr>) w2 of
                        (Some err, w3) \<Rightarrow> (Some err, w3)
                      | (None, w3) \<Rightarrow> labelCandidateMachines filteredMachines w3))))
      else labelCandidateMachines filteredMachines w)"

text \<open>A slice of machine sets may hold nil pointers; this function skips them.\<close>

fun labelNodesBackingMachineSets ::
  "machineSet option list \<Rightarrow> labels \<Rightarrow> world \<Rightarrow> error option \<times> world" where
  "labelNodesBackingMachineSets [] label w = (None, w)"
| "labelNodesBackingMachineSets (None # machineSets) label w =
     labelNodesBackingMachineSets machineSets label w"
| "labelNodesBackingMachineSets (Some machineSet # machineSets) label w =
     (case machineLister_List (isSelector machineSet) w of
        (Inl err, w1) \<Rightarrow> (Some err, w1)
      | (Inr filteredMachines, w1) \<Rightarrow>
          (case labelCandidateMachines filteredMachines w1 of
             (Some err, w2) \<Rightarrow> (Some err, w2)
           | (None, w2) \<Rightarrow> labelNodesBackingMachineSets machineSets label w2))"

text \<open>The loop of \<^verbatim>\<open>getAndLabelMachinesSelectedForUpdate\<close> over the machines of one
  machine set; the flag is \<^verbatim>\<open>isMachineSelectedForUpdate\<close>.\<close>

fun markSelectedMachines ::
  "machine list \<Rightarrow> bool \<Rightarrow> world \<Rightarrow> ((bool \<times> error option) + bool) \<times> world" where
  "markSelectedMachines [] isMachineSelectedForUpdate w = (Inr isMachineSelectedForUpdate, w)"
| "markSelectedMachines (machine # machines) isMachineSelectedForUpdate w =
     (if lookupLabel (mLabels machine) NodeLabelKey \<noteq> []
      then
        (case nodes_Get (lookupLabel (mLabels machine) NodeLabelKey) w of
           (Inl err, w1) \<Rightarrow> markSelectedMachines machines isMachineSelectedForUpdate w1
         | (Inr node, w1) \<Rightarrow>
             (if map_of (nLabels node) LabelKeyMachineSelectedForUpdate = None
              then markSelectedMachines machines isMachineSelectedForUpdate w1
              else
                (case machineControl_PatchMachine (mNamespace machine) (mName machine)
                        (LabelsPatch (MergeStringMaps (mLabels machine)
                           [(LabelKeyMachineSelectedForUpdate, ''true'')])) w1 of
                   (Some err, w2) \<Rightarrow> (Inl (False, Some err), w2)
                 | (None, w2) \<Rightarrow> markSelectedMachines machines True w2)))
      else markSelectedMachines machines isMachineSelectedForUpdate w)"

fun markSelectedMachineSets ::
  "machineSet list \<Rightarrow> bool \<Rightarrow> world \<Rightarrow> (bool \<times> error option) \<times> world" where
  "markSelectedMachineSets [] isMachineSelectedForUpdate w =
     ((isMachineSelectedForUpdate, None), w)"
| "markSelectedMachineSets (is # iSs) isMachineSelectedForUpdate w =
     (if isReplicas is = 0 then markSelectedMachineSets iSs isMachineSelectedForUpdate w
      else
        (case machineLister_List (isSelector is) w of
           (Inl err, w1) \<Rightarrow> ((False, Some err), w1)
         | (Inr machines, w1) \<Rightarrow>
             (case markSelectedMachines machines isMachineSelectedForUpdate w1 of
                (Inl r, w2) \<Rightarrow> (r, w2)
              | (Inr flag, w2) \<Rightarrow> markSelectedMachineSets iSs flag w2)))"

definition getAndLabelMachinesSelectedForUpdate ::
  "machineSet list \<Rightarrow> world \<Rightarrow> (bool \<times> error option) \<times> world" where
  "getAndLabelMachinesSelectedForUpdate iSs w = markSelectedMachineSets iSs False w"

section \<open>The two rollout functions\<close>

text \<open>Modelled from the spec: the annotation keys of the autoscaler package and the
  skip-update label key are constants that are not among the sources; the spec names them
  autoscaler-scale-down-disabled (with a by-mcm variant) and skip-update.\<close>

definition clusterAutoscalerScaleDownAnnotations :: labels where
  "clusterAutoscalerScaleDownAnnotations =
     [(''cluster-autoscaler.kubernetes.io/scale-down-disabled'', ''true''),
      (''cluster-autoscaler.kubernetes.io/scale-down-disabled-by-mcm'', ''true'')]"

definition LabelKeyMachineSetSkipUpdate :: string where
  "LabelKeyMachineSetSkipUpdate = ''node.machine.sapcloud.io/skip-update''"

text \<open>The end of both rollout functions: when the deployment is complete, remove the
  autoscaler annotations (if the flag is set) and clean up; then sync the status.\<close>

definition completeAndSync ::
  "controller \<Rightarrow> machineSet list \<Rightarrow> machineSet list \<Rightarrow> machineSet \<Rightarrow> machineDeployment \<Rightarrow> world
     \<Rightarrow> error option \<times> world" where
  "completeAndSync dc allISs oldISs newIS d w =
     (if MachineDeploymentComplete dc d
      then
        (case (if autoscalerScaleDownAnnotationDuringRollout dc
               then removeAutoscalerAnnotationsIfRequired dc allISs
                      clusterAutoscalerScaleDownAnnotations w
               else (None, w)) of
           (Some err, w1) \<Rightarrow> (Some err, w1)
         | (None, w1) \<Rightarrow>
             (case cleanupMachineDeployment dc oldISs d w1 of
                (Some err, w2) \<Rightarrow> (Some err, w2)
              | (None, w2) \<Rightarrow> syncRolloutStatus dc allISs newIS d w2))
      else syncRolloutStatus dc allISs newIS d w)"

text \<open>\<^verbatim>\<open>rolloutAutoInPlace\<close> up to the labelling of the candidates: the generations
  it goes on with, or the error it returns. A failure to taint is logged only.\<close>

definition rolloutAutoPrepare ::
  "controller \<Rightarrow> machineDeployment \<Rightarrow> machineSet list \<Rightarrow> (string \<times> machine list) list \<Rightarrow> world
     \<Rightarrow> (error + machineSet \<times> machineSet list) \<times> world" where
  "rolloutAutoPrepare dc d isList machineMap w =
     (case getAllMachineSetsAndSyncRevision dc d isList machineMap True w of
        (Inl err, w1) \<Rightarrow> (Inl err, w1)
      | (Inr (newIS, oldISs), w1) \<Rightarrow>
          (case taintNodesBackingMachineSets dc oldISs w1 of
             (taintErr, w2) \<Rightarrow>
               (case (if autoscalerScaleDownAnnotationDuringRollout dc \<and> oldISs \<noteq> []
                         \<and> \<not> machineSetsScaledToZero dc oldISs w2
                      then annotateNodesBackingMachineSets dc (oldISs @ [newIS])
                             clusterAutoscalerScaleDownAnnotations w2
                      else (None, w2)) of
                  (Some err, w3) \<Rightarrow> (Inl err, w3)
                | (None, w3) \<Rightarrow>
                    (case labelNodesBackingMachineSets (map Some oldISs)
                            [(LabelKeyMachineCandidateForUpdate, ''true'')] w3 of
                       (Some err, w4) \<Rightarrow> (Inl (LabelCandidateFailed err), w4)
                     | (None, w4) \<Rightarrow> (Inr (newIS, oldISs), w4)))))"

definition rolloutAutoInPlace ::
  "controller \<Rightarrow> machineDeployment \<Rightarrow> machineSet list \<Rightarrow> (string \<times> machine list) list \<Rightarrow> world
     \<Rightarrow> error option \<times> world" where
  "rolloutAutoInPlace dc d isList machineMap w =
     (case rolloutAutoPrepare dc d isList machineMap w of
        (Inl err, w1) \<Rightarrow> (Some err, w1)
      | (Inr (newIS, oldISs), w1) \<Rightarrow>
          (let allISs = oldISs @ [newIS]
           in case reconcileNewMachineSetInPlace dc oldISs newIS d w1 of
                ((scaledUp, Some err), w2) \<Rightarrow> (Some err, w2)
              | ((scaledUp, None), w2) \<Rightarrow>
                  if scaledUp then syncRolloutStatus dc allISs newIS d w2
                  else
                    (case reconcileOldMachineSetsInPlace dc allISs
                            (FilterActiveMachineSets dc oldISs) newIS d w2 of
                       ((machinesSelectedForUpdate, Some err), w3) \<Rightarrow> (Some err, w3)
                     | ((machinesSelectedForUpdate, None), w3) \<Rightarrow>
                         if machinesSelectedForUpdate
                         then syncRolloutStatus dc allISs newIS d w3
                         else completeAndSync dc allISs oldISs newIS d w3)))"

text \<open>\<^verbatim>\<open>rolloutManualInPlace\<close> up to the sync of the machine sets.\<close>

definition rolloutManualPrepare ::
  "controller \<Rightarrow> machineDeployment \<Rightarrow> machineSet list \<Rightarrow> (string \<times> machine list) list \<Rightarrow> world
     \<Rightarrow> (error + machineSet \<times> machineSet list) \<times> world" where
  "rolloutManualPrepare dc d isList machineMap w =
     (case getAllMachineSetsAndSyncRevision dc d isList machineMap True w of
        (Inl err, w1) \<Rightarrow> (Inl err, w1)
      | (Inr (newIS, oldISs), w1) \<Rightarrow>
          (case taintNodesBackingMachineSets dc oldISs w1 of
             (taintErr, w2) \<Rightarrow>
               (case (if oldISs \<noteq> [] \<and> \<not> machineSetsScaledToZero dc oldISs w2
                      then labelMachineSets dc oldISs [(LabelKeyMachineSetSkipUpdate, ''true'')] w2
                      else (None, w2)) of
                  (Some err, w3) \<Rightarrow> (Inl err, w3)
                | (None, w3) \<Rightarrow>
                    (case (if autoscalerScaleDownAnnotationDuringRollout dc \<and> oldISs \<noteq> []
                              \<and> \<not> machineSetsScaledToZero dc oldISs w3
                           then annotateNodesBackingMachineSets dc (oldISs @ [newIS])
                                  clusterAutoscalerScaleDownAnnotations w3
                           else (None, w3)) of
                       (Some err, w4) \<Rightarrow> (Inl err, w4)
                     | (None, w4) \<Rightarrow>
                         (case syncMachineSets dc oldISs newIS d w4 of
                            (Some err, w5) \<Rightarrow> (Inl (SyncMachineSetsFailed err), w5)
                          | (None, w5) \<Rightarrow> (Inr (newIS, oldISs), w5))))))"

text \<open>The error of \<^verbatim>\<open>getAndLabelMachinesSelectedForUpdate\<close> is logged, not
  returned.\<close>

definition rolloutManualInPlace ::
  "controller \<Rightarrow> machineDeployment \<Rightarrow> machineSet list \<Rightarrow> (string \<times> machine list) list \<Rightarrow> world
     \<Rightarrow> error option \<times> world" where
  "rolloutManualInPlace dc d isList machineMap w =
     (case rolloutManualPrepare dc d isList machineMap w of
        (Inl err, w1) \<Rightarrow> (Some err, w1)
      | (Inr (newIS, oldISs), w1) \<Rightarrow>
          (let allISs = oldISs @ [newIS]
           in case reconcileNewMachineSetInPlace dc oldISs newIS d w1 of
                ((scaledUp, Some err), w2) \<Rightarrow> (Some err, w2)
              | ((scaledUp, None), w2) \<Rightarrow>
                  if scaledUp then syncRolloutStatus dc allISs newIS d w2
                  else
                    (case getAndLabelMachinesSelectedForUpdate oldISs w2 of
                       ((machinesSelectedForUpdate, err), w3) \<Rightarrow>
                         if machinesSelectedForUpdate
                         then syncRolloutStatus dc allISs newIS d w3
                         else completeAndSync dc allISs oldISs newIS d w3)))"

section \<open>What a pass did, read from the trace\<close>

text \<open>The successful machine patches, the successful transfers of ownership and the
  scale calls among a list of calls.\<close>

fun isPatched :: "call \<times> apierr option \<Rightarrow> bool" where
  "isPatched (PatchMachine ns name p, None) = True"
| "isPatched _ = False"

fun isTransferred :: "call \<times> apierr option \<Rightarrow> bool" where
  "isTransferred (PatchMachine ns name (OwnerPatch isn uid ls muid), None) = True"
| "isTransferred _ = False"

fun isScaleCall :: "call \<times> apierr option \<Rightarrow> bool" where
  "isScaleCall (ScaleMachineSet name n, r) = True"
| "isScaleCall _ = False"

fun isPatchCall :: "call \<times> apierr option \<Rightarrow> bool" where
  "isPatchCall (PatchMachine ns name p, r) = True"
| "isPatchCall _ = False"

definition patchedCount :: "(call \<times> apierr option) list \<Rightarrow> nat" where
  "patchedCount calls = length (filter isPatched calls)"

definition transferredCount :: "(call \<times> apierr option) list \<Rightarrow> nat" where
  "transferredCount calls = length (filter isTransferred calls)"

section \<open>The selection steps as the specification words them\<close>

text \<open>
  Section 4.2 of the specification: for each generation in order, stop once the total
  selected reaches the budget; skip a generation whose desired replica count is zero;
  otherwise the count to select is the minimum of the generation's replicas and the
  remaining budget, and the new count within the generation is the generation's replicas
  minus that count; a new count above the old one is a fatal error. This definition is
  compared with \<open>selectLoop\<close>, the translation of the source.
\<close>

fun selectSpec ::
  "machineSet list \<Rightarrow> int32 \<Rightarrow> int32 \<Rightarrow> world \<Rightarrow> (int32 \<times> error option) \<times> world" where
  "selectSpec [] selected budget w = ((selected, None), w)"
| "selectSpec (generation # generations) selected budget w =
     (if sint budget \<le> sint selected then ((selected, None), w)
      else if isReplicas generation = 0 then selectSpec generations selected budget w
      else
        (let generationReplicas = isReplicas generation;
             remainingBudget = budget - selected;
             readyForUpdateCount =
               (if sint generationReplicas \<le> sint remainingBudget then generationReplicas
                else remainingBudget);
             target = generationReplicas - readyForUpdateCount
         in if sint generationReplicas < sint target
            then ((0, Some (InvalidRequest (isName generation) generationReplicas target)), w)
            else
              (case labelMachinesToSelectedForUpdate generation target w of
                 ((newlySelected, Some err), w1) \<Rightarrow> ((selected + newlySelected, Some err), w1)
               | ((newlySelected, None), w1) \<Rightarrow>
                   selectSpec generations (selected + newlySelected) budget w1)))"

section \<open>Concrete clusters\<close>

text \<open>Small clusters on which the theorems below are instantiated.\<close>

definition ex_old :: machineSet where
  "ex_old = \<lparr>isName = ''old'', isUID = ''u-old'', isReplicas = 3,
     isSelector = [(''pool'', ''a'')], isAvailableReplicas = 3, isCreationTimestamp = 1\<rparr>"

definition ex_m1 :: machine where
  "ex_m1 = \<lparr>mName = ''m1'', mNamespace = ''ns'', mUID = ''mu1'',
      mLabels = [(''pool'', ''a''), (''node'', ''n1''),
                 (''node.machine.sapcloud.io/candidate-for-update'', ''true'')]\<rparr>"

definition ex_m2 :: machine where
  "ex_m2 = \<lparr>mName = ''m2'', mNamespace = ''ns'', mUID = ''mu2'',
      mLabels = [(''pool'', ''a''), (''node'', ''n2''),
                 (''node.machine.sapcloud.io/candidate-for-update'', ''true'')]\<rparr>"

definition ex_world :: world where
  "ex_world = \<lparr>machineCache = [ex_m1, ex_m2], nodeCache = [], apiNodes = [],
     replicasStore = (\<lambda>_. 0), faults = (\<lambda>_ _. None), trace = []\<rparr>"

definition cex_old :: machineSet where
  "cex_old = \<lparr>isName = ''old'', isUID = ''u-old'', isReplicas = 1,
     isSelector = [(''node.machine.sapcloud.io/candidate-for-update'', ''false'')],
     isAvailableReplicas = 1, isCreationTimestamp = 1\<rparr>"

definition cex_m :: machine where
  "cex_m = \<lparr>mName = ''m1'', mNamespace = ''ns'', mUID = ''mu1'',
      mLabels = [(''node.machine.sapcloud.io/candidate-for-update'', ''true'')]\<rparr>"

definition cex_world :: world where
  "cex_world = \<lparr>machineCache = [cex_m], nodeCache = [], apiNodes = [],
     replicasStore = (\<lambda>_. 0), faults = (\<lambda>_ _. None), trace = []\<rparr>"

text \<open>An implementation of \<open>getMachineFromNode\<close> for the concrete clusters: the machine
  of the list whose node label names the node.\<close>

definition machineOfNode :: "machine list \<Rightarrow> node \<Rightarrow> error + machine" where
  "machineOfNode machines n =
     (case find (\<lambda>m. lookupLabel (mLabels m) NodeLabelKey = nName n) machines of
        None \<Rightarrow> Inl (ApiError NotFound) | Some m \<Rightarrow> Inr m)"

definition ex_new :: machineSet where
  "ex_new = \<lparr>isName = ''new'', isUID = ''u-new'', isReplicas = 0,
     isSelector = [(''pool'', ''b'')], isAvailableReplicas = 0, isCreationTimestamp = 2\<rparr>"

definition ex_d :: machineDeployment where
  "ex_d = \<lparr>dName = ''d'', dReplicas = 3, dStrategy = ''InPlaceUpdate'', dStatus = ''''\<rparr>"

definition ex_dc :: controller where
  "ex_dc = \<lparr>autoscalerScaleDownAnnotationDuringRollout = False,
     MaxUnavailable = (\<lambda>_. 1),
     getMachineFromNode = machineOfNode,
     MergeWithOverwriteAndFilter = (\<lambda>current oldSel newSel. newSel @ current),
     FilterActiveMachineSets = filter (\<lambda>s. isReplicas s \<noteq> 0),
     MachineDeploymentComplete = (\<lambda>_. False),
     getAllMachineSetsAndSyncRevision = (\<lambda>d isList machineMap create w. (Inr (ex_new, isList), w)),
     taintNodesBackingMachineSets = (\<lambda>_ w. (None, w)),
     machineSetsScaledToZero = (\<lambda>_ _. False),
     annotateNodesBackingMachineSets = (\<lambda>_ _ w. (None, w)),
     labelMachineSets = (\<lambda>_ _ w. (None, w)),
     syncMachineSets = (\<lambda>_ _ _ w. (None, w)),
     syncRolloutStatus = (\<lambda>_ _ _ w. (None, w)),
     removeAutoscalerAnnotationsIfRequired = (\<lambda>_ _ w. (None, w)),
     cleanupMachineDeployment = (\<lambda>_ _ w. (None, w))\<rparr>"

definition ex_n1 :: node where
  "ex_n1 = \<lparr>nName = ''n1'', nLabels = [(''node.machine.sapcloud.io/update-successful'', ''true'')],
     nUnschedulable = True\<rparr>"

definition ex_world2 :: world where
  "ex_world2 = \<lparr>machineCache = [ex_m1, ex_m2], nodeCache = [ex_n1], apiNodes = [ex_n1],
     replicasStore = (\<lambda>_. 0), faults = (\<lambda>_ _. None), trace = []\<rparr>"

definition ex_m3 :: machine where
  "ex_m3 = \<lparr>mName = ''m3'', mNamespace = ''ns'', mUID = ''mu3'',
      mLabels = [(''pool'', ''a''), (''node'', ''n3''),
                 (''node.machine.sapcloud.io/candidate-for-update'', ''true''),
                 (''node.machine.sapcloud.io/selected-for-update'', ''true'')]\<rparr>"

definition ex_world3 :: world where
  "ex_world3 = \<lparr>machineCache = [ex_m3, ex_m2], nodeCache = [], apiNodes = [],
     replicasStore = (\<lambda>_. 0), faults = (\<lambda>_ _. None), trace = []\<rparr>"

text \<open>A cluster with two updated nodes in which the patch of machine \<open>m2\<close> and every
  scale call on the new generation fail.\<close>

definition ex_n2 :: node where
  "ex_n2 = \<lparr>nName = ''n2'', nLabels = [(''node.machine.sapcloud.io/update-successful'', ''true'')],
     nUnschedulable = True\<rparr>"

definition ex_faults :: "nat \<Rightarrow> call \<Rightarrow> apierr option" where
  "ex_faults i c =
     (case c of
        PatchMachine ns name p \<Rightarrow> if name = ''m2'' then Some (ApiFailure 1) else None
      | ScaleMachineSet name k \<Rightarrow> if name = ''new'' then Some (ApiFailure 2) else None
      | _ \<Rightarrow> None)"

definition ex_world5 :: world where
  "ex_world5 = \<lparr>machineCache = [ex_m1, ex_m2], nodeCache = [ex_n1, ex_n2],
     apiNodes = [ex_n1, ex_n2], replicasStore = (\<lambda>_. 0), faults = ex_faults, trace = []\<rparr>"

text \<open>A generation with a negative replica count, created after the others.\<close>

definition ex_late :: machineSet where
  "ex_late = \<lparr>isName = ''late'', isUID = ''u-late'', isReplicas = - 1,
     isSelector = [(''pool'', ''l'')], isAvailableReplicas = 2, isCreationTimestamp = 9\<rparr>"

text \<open>A cluster with two updated nodes in which the transfer of machine \<open>m2\<close> and every
  scale call on the new generation fail; label patches succeed.\<close>

definition ex_faults6 :: "nat \<Rightarrow> call \<Rightarrow> apierr option" where
  "ex_faults6 i c =
     (case c of
        PatchMachine ns name (OwnerPatch isn uid ls muid) \<Rightarrow>
          if name = ''m2'' then Some (ApiFailure 1) else None
      | ScaleMachineSet name k \<Rightarrow> if name = ''new'' then Some (ApiFailure 2) else None
      | _ \<Rightarrow> None)"

definition ex_world6 :: world where
  "ex_world6 = \<lparr>machineCache = [ex_m1, ex_m2], nodeCache = [ex_n1, ex_n2],
     apiNodes = [ex_n1, ex_n2], replicasStore = (\<lambda>_. 0), faults = ex_faults6, trace = []\<rparr>"

section \<open>Basic facts\<close>

lemmas label_keys =
  LabelKeyMachineCandidateForUpdate_def LabelKeyMachineSelectedForUpdate_def
  LabelKeyMachineUpdateSuccessful_def NodeLabelKey_def

lemmas ex_defs = ex_old_def ex_new_def ex_d_def ex_dc_def ex_n1_def ex_m1_def ex_m2_def
  ex_world_def ex_world2_def machineOfNode_def ex_m3_def ex_world3_def
  ex_n2_def ex_faults_def ex_world5_def ex_late_def ex_faults6_def ex_world6_def

lemmas model_defs = invoke_def Let_def machineLister_List_def nodeLister_List_def
  nodeLister_Get_def nodes_Get_def nodes_Update_def machineControl_PatchMachine_def
  scaleMachineSetAndRecordEvent_def MergeStringMaps_def matchesSelector_def lookupLabel_def
  label_keys

lemma invoke_eq:
  "invoke c w = (faults w (length (trace w)) c,
                 w\<lparr>trace := trace w @ [(c, faults w (length (trace w)) c)]\<rparr>)"
  by (simp add: invoke_def Let_def)

lemma machineLister_List_frame:
  assumes "machineLister_List sel w = (r, w')"
  shows "\<exists>oc. w' = w\<lparr>trace := trace w @ [(ListMachines sel, oc)]\<rparr>"
  using assms by (auto simp: machineLister_List_def invoke_eq split: option.splits)

lemma undergoingLoop_frame:
  "undergoingLoop gens n w = (r, w') \<Longrightarrow>
     \<exists>seg. w' = w\<lparr>trace := trace w @ seg\<rparr> \<and> filter isPatchCall seg = [] \<and> filter isScaleCall seg = []"
proof (induction gens arbitrary: n w)
  case Nil
  then show ?case by (auto intro: exI[of _ "[]"])
next
  case (Cons g gens)
  obtain x w1 where l: "machineLister_List
             (MergeStringMaps (isSelector g) [(LabelKeyMachineSelectedForUpdate, ''true'')]) w = (x, w1)"
    by (cases "machineLister_List
             (MergeStringMaps (isSelector g) [(LabelKeyMachineSelectedForUpdate, ''true'')]) w")
  from machineLister_List_frame[OF l] obtain oc where
    w1: "w1 = w\<lparr>trace := trace w @ [(ListMachines (MergeStringMaps (isSelector g) [(LabelKeyMachineSelectedForUpdate, ''true'')]), oc)]\<rparr>"
    by blast
  show ?case
  proof (cases x)
    case (Inl e)
    with Cons.prems l have "w' = w1" by simp
    with w1 show ?thesis by (intro exI[of _ "[(ListMachines (MergeStringMaps (isSelector g) [(LabelKeyMachineSelectedForUpdate, ''true'')]), oc)]"]) simp
  next
    case (Inr ms)
    with Cons.prems l have "undergoingLoop gens (n + of_nat (length ms)) w1 = (r, w')" by simp
    from Cons.IH[OF this] obtain seg where
      "w' = w1\<lparr>trace := trace w1 @ seg\<rparr>" "filter isPatchCall seg = []" "filter isScaleCall seg = []"
      by blast
    with w1 show ?thesis
      by (intro exI[of _ "(ListMachines (MergeStringMaps (isSelector g) [(LabelKeyMachineSelectedForUpdate, ''true'')]), oc) # seg"]) simp
  qed
qed

lemma matches_merge_key:
  "matchesSelector (MergeStringMaps sel [(k, v)]) ls \<Longrightarrow> map_of ls k = Some v"
  by (simp add: matchesSelector_def MergeStringMaps_def)

lemma matches_merge_selector:
  assumes "matchesSelector (MergeStringMaps sel [(k, v)]) ls"
    and "map_of sel k = None \<or> map_of sel k = Some v"
  shows "matchesSelector sel ls"
  unfolding matchesSelector_def list_all_iff
proof
  fix x assume x: "x \<in> set (map fst sel)"
  from assms(1) have k: "map_of ls k = Some v"
    and rest: "\<forall>y\<in>set (map fst sel). map_of ls y = (if y = k then Some v else map_of sel y)"
    by (simp_all add: matchesSelector_def MergeStringMaps_def list_all_iff)
  show "map_of ls x = map_of sel x"
  proof (cases "x = k")
    case True
    from x True have "map_of sel k \<noteq> None" by (simp add: map_of_eq_None_iff)
    with assms(2) k True show ?thesis by simp
  next
    case False
    with rest x show ?thesis by auto
  qed
qed

lemma machineLister_List_Inr:
  "machineLister_List sel w = (Inr ms, w') \<Longrightarrow>
     ms = filter (\<lambda>m. matchesSelector sel (mLabels m)) (machineCache w) \<and>
     w' = w\<lparr>trace := trace w @ [(ListMachines sel, None)]\<rparr>"
  by (auto simp: machineLister_List_def invoke_def Let_def split: option.splits)

lemma getMachinesForDrain_members:
  assumes "getMachinesForDrain g r w = (Inr ms, w')" and "m \<in> set ms"
  shows "matchesSelector (MergeStringMaps (isSelector g)
            [(LabelKeyMachineCandidateForUpdate, ''true'')]) (mLabels m)
         \<and> map_of (mLabels m) LabelKeyMachineSelectedForUpdate = None"
  using assms
  by (auto simp: getMachinesForDrain_def Let_def split: prod.splits sum.splits if_splits
      dest!: machineLister_List_Inr in_set_takeD)

lemma getMachinesForDrain_length:
  assumes "getMachinesForDrain g r w = (Inr ms, w')" and "0 \<le> sint r"
  shows "int (length ms) \<le> sint r"
  using assms
  by (auto simp: getMachinesForDrain_def Let_def split: prod.splits sum.splits if_splits)

section \<open>C7: the machines chosen for drain\<close>

text \<open>
  C7, as amended. For a nonnegative target count, \<open>getMachinesForDrain\<close> returns at
  most the target count of machines; every returned machine matches the generation's
  selector merged with candidate-for-update = true (so it matches the generation's selector
  on every other key), carries the candidate-for-update label with value true and does not
  carry the selected-for-update label. It matches the generation's selector itself whenever
  that selector does not bind candidate-for-update to another value.
\<close>

theorem C7_getMachinesForDrain_contract:
  assumes "0 \<le>s readyForDrain"
    and "getMachinesForDrain g readyForDrain w = (Inr machines, w')"
  shows "int (length machines) \<le> sint readyForDrain \<and>
     (\<forall>m \<in> set machines.
        matchesSelector (MergeStringMaps (isSelector g)
            [(LabelKeyMachineCandidateForUpdate, ''true'')]) (mLabels m) \<and>
        map_of (mLabels m) LabelKeyMachineCandidateForUpdate = Some ''true'' \<and>
        map_of (mLabels m) LabelKeyMachineSelectedForUpdate = None \<and>
        (map_of (isSelector g) LabelKeyMachineCandidateForUpdate = None \<or>
         map_of (isSelector g) LabelKeyMachineCandidateForUpdate = Some ''true''
           \<longrightarrow> matchesSelector (isSelector g) (mLabels m)))"
proof -
  from assms(1) have r: "0 \<le> sint readyForDrain" by (simp add: word_sle_eq)
  show ?thesis
    using getMachinesForDrain_length[OF assms(2) r] getMachinesForDrain_members[OF assms(2)]
    by (auto dest: matches_merge_key matches_merge_selector)
qed

text \<open>The theorem on a generation of two candidate machines, one of them asked for.\<close>

lemma ex_drain: "getMachinesForDrain ex_old 1 ex_world =
    (Inr [ex_m1], ex_world\<lparr>trace := [(ListMachines ((''node.machine.sapcloud.io/candidate-for-update'', ''true'') # [(''pool'', ''a'')]), None)]\<rparr>)"
  by (simp add: getMachinesForDrain_def machineLister_List_def invoke_def Let_def
      ex_old_def ex_m1_def ex_m2_def ex_world_def MergeStringMaps_def matchesSelector_def label_keys)

theorem C7_witness:
  "int (length [ex_m1]) \<le> sint (1 :: int32) \<and>
   matchesSelector (isSelector ex_old) (mLabels ex_m1) \<and>
   map_of (mLabels ex_m1) LabelKeyMachineCandidateForUpdate = Some ''true'' \<and>
   map_of (mLabels ex_m1) LabelKeyMachineSelectedForUpdate = None"
proof -
  have h: "0 \<le>s (1 :: int32)" by (simp add: word_sle_eq)
  have s: "map_of (isSelector ex_old) LabelKeyMachineCandidateForUpdate = None"
    by (simp add: ex_old_def label_keys)
  from C7_getMachinesForDrain_contract[OF h ex_drain] s show ?thesis by simp
qed

text \<open>
  C7 as stated fails: a generation whose selector asks for candidate-for-update = false.
  The merge overrides that entry, so the machine returned carries
  candidate-for-update = true and does not match the generation's selector.
\<close>

theorem C7_counterexample:
  "fst (getMachinesForDrain cex_old 1 cex_world) = Inr [cex_m] \<and>
   \<not> matchesSelector (isSelector cex_old) (mLabels cex_m)"
  by (simp add: getMachinesForDrain_def machineLister_List_def invoke_def Let_def
      cex_old_def cex_m_def cex_world_def MergeStringMaps_def matchesSelector_def label_keys)


section \<open>C3: the budget gate of the old generations\<close>

text \<open>
  C3. When the machines undergoing update have been counted and \<open>maxUpdatePossible\<close>
  is at most zero, \<open>reconcileOldMachineSetsInPlace\<close> returns \<open>(false, nil)\<close>,
  and the calls it made hold no machine patch and no scale call: no machine is labelled
  and no generation is scaled.
\<close>

theorem C3_budget_gate_is_a_noop:
  assumes "getMachinesUndergoingUpdate oldISs w = ((oldISsMachinesUndergoingUpdate, None), w1)"
    and "maxUpdatePossible dc allISs newIS deployment oldISsMachinesUndergoingUpdate \<le>s 0"
  shows "\<exists>w' seg. reconcileOldMachineSetsInPlace dc allISs oldISs newIS deployment w
                 = ((False, None), w')
           \<and> w' = w\<lparr>trace := trace w @ seg\<rparr>
           \<and> filter isPatchCall seg = [] \<and> filter isScaleCall seg = []"
proof (cases "GetReplicaCountForMachineSets oldISs = 0")
  case True
  then have "reconcileOldMachineSetsInPlace dc allISs oldISs newIS deployment w = ((False, None), w)"
    by (simp add: reconcileOldMachineSetsInPlace_def)
  then show ?thesis by (intro exI[of _ w] exI[of _ "[]"]) simp
next
  case False
  with assms have r: "reconcileOldMachineSetsInPlace dc allISs oldISs newIS deployment w = ((False, None), w1)"
    by (simp add: reconcileOldMachineSetsInPlace_def)
  from assms(1) obtain seg where "w1 = w\<lparr>trace := trace w @ seg\<rparr>" "filter isPatchCall seg = []" "filter isScaleCall seg = []"
    unfolding getMachinesUndergoingUpdate_def using undergoingLoop_frame by blast
  with r show ?thesis by blast
qed

text \<open>The theorem on a cluster whose budget of one is used up by a machine already
  selected for update.\<close>

theorem C3_witness:
  "fst (reconcileOldMachineSetsInPlace ex_dc [ex_old, ex_new] [ex_old] ex_new ex_d ex_world3)
     = (False, None)
   \<and> filter isPatchCall
        (trace (snd (reconcileOldMachineSetsInPlace ex_dc [ex_old, ex_new] [ex_old] ex_new ex_d
           ex_world3))) = []
   \<and> filter isScaleCall
        (trace (snd (reconcileOldMachineSetsInPlace ex_dc [ex_old, ex_new] [ex_old] ex_new ex_d
           ex_world3))) = []"
proof -
  have h1: "getMachinesUndergoingUpdate [ex_old] ex_world3 =
      ((1, None), snd (getMachinesUndergoingUpdate [ex_old] ex_world3))"
    by (simp add: getMachinesUndergoingUpdate_def ex_defs model_defs)
  have h2: "maxUpdatePossible ex_dc [ex_old, ex_new] ex_new ex_d 1 \<le>s 0"
    by (simp add: maxUpdatePossible_def GetReplicaCountForMachineSets_def ex_defs Let_def)
  have t: "trace ex_world3 = []" by (simp add: ex_world3_def)
  from C3_budget_gate_is_a_noop[OF h1 h2] t
  show ?thesis by auto
qed

section \<open>C4: one kind of progress per pass\<close>

lemma rolloutAutoInPlace_on_error:
  assumes "rolloutAutoPrepare dc d isList machineMap w = (Inr (newIS, oldISs), w1)"
    and "reconcileNewMachineSetInPlace dc oldISs newIS d w1 = ((scaledUp, Some err), w2)"
  shows "rolloutAutoInPlace dc d isList machineMap w = (Some err, w2)"
  using assms by (simp add: rolloutAutoInPlace_def)

text \<open>
  C4, in the form that holds. In both rollout functions, when the preparation succeeds:
  if \<open>reconcileNewMachineSetInPlace\<close> returns \<open>(true, nil)\<close>, the result of the
  pass is the result of \<open>syncRolloutStatus\<close> on the state the transfer left; if it
  returns an error, with the flag true or false, the pass returns that error and the state
  the transfer left, without syncing the status. In both cases neither
  \<open>reconcileOldMachineSetsInPlace\<close> nor \<open>getAndLabelMachinesSelectedForUpdate\<close>
  runs.
\<close>

theorem C4_no_dual_progress:
  "(rolloutAutoPrepare dc d isList machineMap w = (Inr (newIS, oldISs), w1)
      \<and> reconcileNewMachineSetInPlace dc oldISs newIS d w1 = ((True, None), w2)
      \<longrightarrow> rolloutAutoInPlace dc d isList machineMap w
            = syncRolloutStatus dc (oldISs @ [newIS]) newIS d w2)
   \<and> (rolloutAutoPrepare dc d isList machineMap w = (Inr (newIS, oldISs), w1)
      \<and> reconcileNewMachineSetInPlace dc oldISs newIS d w1 = ((scaledUp, Some err), w2)
      \<longrightarrow> rolloutAutoInPlace dc d isList machineMap w = (Some err, w2))
   \<and> (rolloutManualPrepare dc d isList machineMap w = (Inr (newIS, oldISs), w1)
      \<and> reconcileNewMachineSetInPlace dc oldISs newIS d w1 = ((True, None), w2)
      \<longrightarrow> rolloutManualInPlace dc d isList machineMap w
            = syncRolloutStatus dc (oldISs @ [newIS]) newIS d w2)
   \<and> (rolloutManualPrepare dc d isList machineMap w = (Inr (newIS, oldISs), w1)
      \<and> reconcileNewMachineSetInPlace dc oldISs newIS d w1 = ((scaledUp, Some err), w2)
      \<longrightarrow> rolloutManualInPlace dc d isList machineMap w = (Some err, w2))"
  by (simp add: rolloutAutoInPlace_def rolloutManualInPlace_def)

text \<open>The theorem on a cluster where one updated machine is transferred, and on a cluster
  where the transfer of the second machine and the compensating scale-up fail after the
  first machine was transferred.\<close>

theorem C4_witness:
  "rolloutAutoInPlace ex_dc ex_d [ex_old] [] ex_world2 =
     (None, snd (reconcileNewMachineSetInPlace ex_dc [ex_old] ex_new ex_d
                   (snd (rolloutAutoPrepare ex_dc ex_d [ex_old] [] ex_world2))))
   \<and> rolloutManualInPlace ex_dc ex_d [ex_old] [] ex_world2 =
     (None, snd (reconcileNewMachineSetInPlace ex_dc [ex_old] ex_new ex_d
                   (snd (rolloutManualPrepare ex_dc ex_d [ex_old] [] ex_world2))))
   \<and> rolloutAutoInPlace ex_dc ex_d [ex_old] [] ex_world6 =
     (Some (ApiError (ApiFailure 2)),
      snd (reconcileNewMachineSetInPlace ex_dc [ex_old] ex_new ex_d
             (snd (rolloutAutoPrepare ex_dc ex_d [ex_old] [] ex_world6))))
   \<and> rolloutManualInPlace ex_dc ex_d [ex_old] [] ex_world6 =
     (Some (ApiError (ApiFailure 2)),
      snd (reconcileNewMachineSetInPlace ex_dc [ex_old] ex_new ex_d
             (snd (rolloutManualPrepare ex_dc ex_d [ex_old] [] ex_world6))))"
proof -
  let ?a = "rolloutAutoPrepare ex_dc ex_d [ex_old] [] ex_world2"
  let ?m = "rolloutManualPrepare ex_dc ex_d [ex_old] [] ex_world2"
  let ?ra = "reconcileNewMachineSetInPlace ex_dc [ex_old] ex_new ex_d (snd ?a)"
  let ?rm = "reconcileNewMachineSetInPlace ex_dc [ex_old] ex_new ex_d (snd ?m)"
  let ?a6 = "rolloutAutoPrepare ex_dc ex_d [ex_old] [] ex_world6"
  let ?m6 = "rolloutManualPrepare ex_dc ex_d [ex_old] [] ex_world6"
  let ?ra6 = "reconcileNewMachineSetInPlace ex_dc [ex_old] ex_new ex_d (snd ?a6)"
  let ?rm6 = "reconcileNewMachineSetInPlace ex_dc [ex_old] ex_new ex_d (snd ?m6)"
  have a: "?a = (Inr (ex_new, [ex_old]), snd ?a)"
    by (simp add: rolloutAutoPrepare_def ex_defs model_defs)
  have m: "?m = (Inr (ex_new, [ex_old]), snd ?m)"
    by (simp add: rolloutManualPrepare_def ex_defs model_defs)
  have ra: "?ra = ((True, None), snd ?ra)"
    by (simp add: rolloutAutoPrepare_def reconcileNewMachineSetInPlace_def ex_defs model_defs
        word_sless_alt)
  have rm: "?rm = ((True, None), snd ?rm)"
    by (simp add: rolloutManualPrepare_def reconcileNewMachineSetInPlace_def ex_defs model_defs
        word_sless_alt)
  have a6: "?a6 = (Inr (ex_new, [ex_old]), snd ?a6)"
    by (simp add: rolloutAutoPrepare_def ex_defs model_defs)
  have m6: "?m6 = (Inr (ex_new, [ex_old]), snd ?m6)"
    by (simp add: rolloutManualPrepare_def ex_defs model_defs)
  have ra6: "?ra6 = ((True, Some (ApiError (ApiFailure 2))), snd ?ra6)"
    by (simp add: rolloutAutoPrepare_def reconcileNewMachineSetInPlace_def ex_defs model_defs
        word_sless_alt)
  have rm6: "?rm6 = ((True, Some (ApiError (ApiFailure 2))), snd ?rm6)"
    by (simp add: rolloutManualPrepare_def reconcileNewMachineSetInPlace_def ex_defs model_defs
        word_sless_alt)
  have s: "\<And>x y z w. syncRolloutStatus ex_dc x y z w = (None, w)" by (simp add: ex_dc_def)
  from C4_no_dual_progress[of ex_dc ex_d "[ex_old]" "[]" ex_world2 ex_new "[ex_old]" "snd ?a"
      "snd ?ra"] a ra
  have 1: "rolloutAutoInPlace ex_dc ex_d [ex_old] [] ex_world2 = (None, snd ?ra)"
    by (simp add: s)
  from C4_no_dual_progress[of ex_dc ex_d "[ex_old]" "[]" ex_world2 ex_new "[ex_old]" "snd ?m"
      "snd ?rm"] m rm
  have 2: "rolloutManualInPlace ex_dc ex_d [ex_old] [] ex_world2 = (None, snd ?rm)"
    by (simp add: s)
  from C4_no_dual_progress[where dc = ex_dc and d = ex_d and isList = "[ex_old]"
      and machineMap = "[]" and w = ex_world6 and newIS = ex_new and oldISs = "[ex_old]"
      and ?w1.0 = "snd ?a6" and ?w2.0 = "snd ?ra6" and scaledUp = True
      and err = "ApiError (ApiFailure 2)"] a6 ra6
  have 3: "rolloutAutoInPlace ex_dc ex_d [ex_old] [] ex_world6
             = (Some (ApiError (ApiFailure 2)), snd ?ra6)"
    by simp
  from C4_no_dual_progress[where dc = ex_dc and d = ex_d and isList = "[ex_old]"
      and machineMap = "[]" and w = ex_world6 and newIS = ex_new and oldISs = "[ex_old]"
      and ?w1.0 = "snd ?m6" and ?w2.0 = "snd ?rm6" and scaledUp = True
      and err = "ApiError (ApiFailure 2)"] m6 rm6
  have 4: "rolloutManualInPlace ex_dc ex_d [ex_old] [] ex_world6
             = (Some (ApiError (ApiFailure 2)), snd ?rm6)"
    by simp
  from 1 2 3 4 show ?thesis by simp
qed

text \<open>
  C4 as stated fails: on the second cluster the transfer step returns true together with
  an error. The pass returns that error; the status is not synced (on this controller
  \<open>syncRolloutStatus\<close> never returns an error).
\<close>

theorem C4_counterexample:
  "fst (rolloutAutoPrepare ex_dc ex_d [ex_old] [] ex_world6) = Inr (ex_new, [ex_old])
   \<and> fst (reconcileNewMachineSetInPlace ex_dc [ex_old] ex_new ex_d
          (snd (rolloutAutoPrepare ex_dc ex_d [ex_old] [] ex_world6)))
        = (True, Some (ApiError (ApiFailure 2)))
   \<and> fst (rolloutAutoInPlace ex_dc ex_d [ex_old] [] ex_world6) = Some (ApiError (ApiFailure 2))
   \<and> fst (syncRolloutStatus ex_dc ([ex_old] @ [ex_new]) ex_new ex_d
          (snd (reconcileNewMachineSetInPlace ex_dc [ex_old] ex_new ex_d
             (snd (rolloutAutoPrepare ex_dc ex_d [ex_old] [] ex_world6))))) = None
   \<and> rolloutAutoInPlace ex_dc ex_d [ex_old] [] ex_world6
        \<noteq> syncRolloutStatus ex_dc ([ex_old] @ [ex_new]) ex_new ex_d
            (snd (reconcileNewMachineSetInPlace ex_dc [ex_old] ex_new ex_d
               (snd (rolloutAutoPrepare ex_dc ex_d [ex_old] [] ex_world6))))"
proof -
  let ?a6 = "rolloutAutoPrepare ex_dc ex_d [ex_old] [] ex_world6"
  let ?ra6 = "reconcileNewMachineSetInPlace ex_dc [ex_old] ex_new ex_d (snd ?a6)"
  have A: "?a6 = (Inr (ex_new, [ex_old]), snd ?a6)"
    by (simp add: rolloutAutoPrepare_def ex_defs model_defs)
  have RA: "?ra6 = ((True, Some (ApiError (ApiFailure 2))), snd ?ra6)"
    by (simp add: rolloutAutoPrepare_def reconcileNewMachineSetInPlace_def ex_defs model_defs
        word_sless_alt)
  from A have a6: "fst ?a6 = Inr (ex_new, [ex_old])" by (metis fst_conv)
  from RA have ra6: "fst ?ra6 = (True, Some (ApiError (ApiFailure 2)))" by (metis fst_conv)
  have r: "fst (rolloutAutoInPlace ex_dc ex_d [ex_old] [] ex_world6)
             = Some (ApiError (ApiFailure 2))"
    using rolloutAutoInPlace_on_error[OF A RA] by simp
  have s: "fst (syncRolloutStatus ex_dc ([ex_old] @ [ex_new]) ex_new ex_d (snd ?ra6)) = None"
    by (simp add: ex_dc_def)
  from r s have "rolloutAutoInPlace ex_dc ex_d [ex_old] [] ex_world6
        \<noteq> syncRolloutStatus ex_dc ([ex_old] @ [ex_new]) ex_new ex_d (snd ?ra6)"
    by auto
  with a6 ra6 r s show ?thesis by simp
qed

section \<open>Signed 32-bit arithmetic\<close>

lemma sint32_bounds: "- 2147483648 \<le> sint (x :: int32) \<and> sint x < 2147483648"
  using sint_ge[of x] sint_lt[of x] by simp

lemma sint32_sub:
  assumes "0 \<le> sint (a :: int32)" "0 \<le> sint b"
  shows "sint (b - a) = sint b - sint a"
proof -
  have "sint (b - a) = signed_take_bit 31 (sint b - sint a)"
    by (simp add: sint_word_ariths)
  also have "\<dots> = sint b - sint a"
    using assms sint32_bounds[of a] sint32_bounds[of b]
    by (intro signed_take_bit_int_eq_self) simp_all
  finally show ?thesis .
qed

lemma sint32_of_nat:
  assumes "int k < 2147483648"
  shows "sint (of_nat k :: int32) = int k"
proof -
  have "sint (of_nat k :: int32) = signed_take_bit 31 (int k)"
    by (simp add: signed_of_nat signed_take_bit_take_bit)
  also have "\<dots> = int k" using assms by (intro signed_take_bit_int_eq_self) simp_all
  finally show ?thesis .
qed

lemma sint32_add_nat:
  assumes "0 \<le> sint (a :: int32)" "sint a + int k < 2147483648"
  shows "sint (a + of_nat k) = sint a + int k"
proof -
  have k: "sint (of_nat k :: int32) = int k" using assms by (intro sint32_of_nat) simp
  have "sint (a + of_nat k) = signed_take_bit 31 (sint a + sint (of_nat k :: int32))"
    by (simp add: sint_word_ariths)
  also have "\<dots> = sint a + int k"
    unfolding k using assms by (intro signed_take_bit_int_eq_self) simp_all
  finally show ?thesis .
qed

lemma readyForUpdateCount_cases:
  "(word_of_int (IntMin (sint (r :: int32)) (sint (m :: int32))) :: int32)
     = (if sint r < sint m then r else m)"
  by (simp add: IntMin_def)

lemma readyForUpdateCount_bounds:
  assumes "0 \<le> sint (tot :: int32)" "sint tot < sint (budget :: int32)"
    and "ready = (word_of_int (IntMin (sint r) (sint (budget - tot))) :: int32)"
    and "\<not> r <s r - ready"
  shows "0 \<le> sint ready \<and> sint ready \<le> sint budget - sint tot"
proof -
  have rem: "sint (budget - tot) = sint budget - sint tot"
    using assms(1,2) by (intro sint32_sub) simp_all
  show ?thesis
  proof (cases "sint r < sint (budget - tot)")
    case True
    with assms(3) have "ready = r" by (simp add: readyForUpdateCount_cases)
    with assms(4) True rem show ?thesis by (simp add: word_sless_alt)
  next
    case False
    with assms(3) have "ready = budget - tot" by (simp add: readyForUpdateCount_cases)
    with rem assms(2) show ?thesis by simp
  qed
qed

lemma newReplicasCount_not_above:
  assumes "0 \<le> sint (tot :: int32)" "sint tot < sint (budget :: int32)" "0 \<le> sint r"
    and "ready = (word_of_int (IntMin (sint r) (sint (budget - tot))) :: int32)"
  shows "\<not> r <s r - ready"
proof -
  have rem: "sint (budget - tot) = sint budget - sint tot"
    using assms(1,2) by (intro sint32_sub) simp_all
  show ?thesis
  proof (cases "sint r < sint (budget - tot)")
    case True
    with assms(4) have "ready = r" by (simp add: readyForUpdateCount_cases)
    with assms(3) show ?thesis by (simp add: word_sless_alt)
  next
    case False
    with assms(4) have ready: "ready = budget - tot" by (simp add: readyForUpdateCount_cases)
    have "sint (r - (budget - tot)) = sint r - sint (budget - tot)"
      using rem assms(2,3) by (intro sint32_sub) simp_all
    with ready rem assms(2) show ?thesis by (simp add: word_sless_alt)
  qed
qed

section \<open>The selection loop\<close>

lemma patchedCount_append [simp]: "patchedCount (a @ b) = patchedCount a + patchedCount b"
  by (simp add: patchedCount_def)

lemma patchedCount_Nil [simp]: "patchedCount [] = 0"
  by (simp add: patchedCount_def)

lemma labelSelectedLoop_count:
  "labelSelectedLoop ms n w = ((n', e), w') \<Longrightarrow>
     \<exists>seg. w' = w\<lparr>trace := trace w @ seg\<rparr> \<and> patchedCount seg \<le> length ms
        \<and> n' = n + of_nat (patchedCount seg) \<and> filter isScaleCall seg = []
        \<and> (e = None \<or> (\<exists>a. e = Some (ApiError a)))"
proof (induction ms arbitrary: n w)
  case Nil
  then show ?case by (intro exI[of _ "[]"]) simp
next
  case (Cons m ms)
  let ?c = "PatchMachine (mNamespace m) (mName m)
              (LabelsPatch (MergeStringMaps (mLabels m) [(LabelKeyMachineSelectedForUpdate, ''true'')]))"
  let ?r = "faults w (length (trace w)) ?c"
  let ?w1 = "w\<lparr>trace := trace w @ [(?c, ?r)]\<rparr>"
  show ?case
  proof (cases ?r)
    case None
    with Cons.prems have "labelSelectedLoop ms (n + 1) ?w1 = ((n', e), w')"
      by (simp add: machineControl_PatchMachine_def invoke_eq)
    from Cons.IH[OF this] obtain seg where s: "w' = ?w1\<lparr>trace := trace ?w1 @ seg\<rparr>"
      "patchedCount seg \<le> length ms" "n' = n + 1 + of_nat (patchedCount seg)"
      "filter isScaleCall seg = []" "e = None \<or> (\<exists>a. e = Some (ApiError a))"
      by blast
    show ?thesis
      using s None by (intro exI[of _ "(?c, ?r) # seg"]) (simp add: patchedCount_def)
  next
    case (Some a)
    with Cons.prems have "n' = n" "e = Some (ApiError a)" "w' = ?w1"
      by (simp_all add: machineControl_PatchMachine_def invoke_eq)
    then show ?thesis
      using Some by (intro exI[of _ "[(?c, ?r)]"]) (simp add: patchedCount_def)
  qed
qed

lemma getMachinesForDrain_frame:
  assumes "getMachinesForDrain g r w = (x, w')"
  shows "\<exists>oc. w' = w\<lparr>trace := trace w @
            [(ListMachines (MergeStringMaps (isSelector g)
                [(LabelKeyMachineCandidateForUpdate, ''true'')]), oc)]\<rparr>"
    and "x = Inl err \<Longrightarrow> err = SliceBoundsPanic \<or> (\<exists>a. err = ApiError a)"
  using assms
  by (auto simp: getMachinesForDrain_def machineLister_List_def invoke_eq Let_def
      split: option.splits if_splits)

lemma labelMachinesToSelectedForUpdate_count:
  assumes "0 \<le> sint (isReplicas g - newScale)"
    and "labelMachinesToSelectedForUpdate g newScale w = ((sel, e), w')"
  shows "\<exists>seg. w' = w\<lparr>trace := trace w @ seg\<rparr>
           \<and> int (patchedCount seg) \<le> sint (isReplicas g - newScale)
           \<and> sel = of_nat (patchedCount seg) \<and> filter isScaleCall seg = []
           \<and> (\<forall>a b c. e \<noteq> Some (InvalidRequest a b c))"
proof -
  obtain x w1 where d: "getMachinesForDrain g (isReplicas g - newScale) w = (x, w1)"
    by (cases "getMachinesForDrain g (isReplicas g - newScale) w")
  from getMachinesForDrain_frame(1)[OF d] obtain oc where
    w1: "w1 = w\<lparr>trace := trace w @
            [(ListMachines (MergeStringMaps (isSelector g)
                [(LabelKeyMachineCandidateForUpdate, ''true'')]), oc)]\<rparr>"
    by blast
  define c where "c = (ListMachines (MergeStringMaps (isSelector g)
                [(LabelKeyMachineCandidateForUpdate, ''true'')]), oc)"
  have c: "w1 = w\<lparr>trace := trace w @ [c]\<rparr>" "\<not> isPatched c" "\<not> isScaleCall c"
    using w1 by (simp_all add: c_def)
  note x = getMachinesForDrain_frame(2)[OF d]
  show ?thesis
  proof (cases x)
    case (Inl err)
    with assms(2) d have "sel = 0" "e = Some err" "w' = w1"
      by (simp_all add: labelMachinesToSelectedForUpdate_def Let_def)
    with c x[OF Inl] assms(1) show ?thesis
      by (intro exI[of _ "[c]"]) (auto simp: patchedCount_def)
  next
    case (Inr ms)
    with assms(2) d have l: "labelSelectedLoop ms 0 w1 = ((sel, e), w')"
      by (simp add: labelMachinesToSelectedForUpdate_def Let_def)
    from labelSelectedLoop_count[OF l] obtain seg where
      s: "w' = w1\<lparr>trace := trace w1 @ seg\<rparr>" "patchedCount seg \<le> length ms"
         "sel = 0 + of_nat (patchedCount seg)" "filter isScaleCall seg = []"
         "e = None \<or> (\<exists>a. e = Some (ApiError a))"
      by blast
    from d Inr assms(1) have "int (length ms) \<le> sint (isReplicas g - newScale)"
      by (intro getMachinesForDrain_length) simp_all
    with s c show ?thesis
      by (intro exI[of _ "c # seg"]) (auto simp: patchedCount_def)
  qed
qed

lemma selectLoop_Cons_invalid:
  assumes "\<not> budget \<le>s tot" and "isReplicas g \<noteq> 0"
    and "new = isReplicas g -
           word_of_int (IntMin (sint (isReplicas g)) (sint (budget - tot)))"
    and "isReplicas g <s new"
  shows "selectLoop (g # gens) tot budget w =
           ((0, Some (InvalidRequest (isName g) (isReplicas g) new)), w)"
  using assms by (simp add: Let_def)

lemma selectLoop_Cons_label:
  assumes "\<not> budget \<le>s tot" and "isReplicas g \<noteq> 0"
    and "new = isReplicas g -
           word_of_int (IntMin (sint (isReplicas g)) (sint (budget - tot)))"
    and "\<not> isReplicas g <s new"
  shows "selectLoop (g # gens) tot budget w =
           (case labelMachinesToSelectedForUpdate g new w of
              ((sel, Some err), w1) \<Rightarrow> ((tot + sel, Some err), w1)
            | ((sel, None), w1) \<Rightarrow> selectLoop gens (tot + sel) budget w1)"
  using assms by (simp add: Let_def)

lemma selectLoop_invariant:
  assumes "0 \<le> sint tot"
    and "selectLoop gens tot budget w = ((n, e), w')"
  shows "\<exists>seg. w' = w\<lparr>trace := trace w @ seg\<rparr>
           \<and> int (patchedCount seg) \<le> max 0 (sint budget - sint tot)
           \<and> filter isScaleCall seg = []
           \<and> ((\<forall>a b c. e \<noteq> Some (InvalidRequest a b c)) \<longrightarrow> n = tot + of_nat (patchedCount seg))
           \<and> ((\<forall>g \<in> set gens. 0 \<le> sint (isReplicas g)) \<longrightarrow> (\<forall>a b c. e \<noteq> Some (InvalidRequest a b c)))"
  using assms
proof (induction gens arbitrary: tot w)
  case Nil
  then show ?case by (intro exI[of _ "[]"]) simp
next
  case (Cons g gens)
  show ?case
  proof (cases "budget \<le>s tot")
    case True
    with Cons.prems show ?thesis by (intro exI[of _ "[]"]) simp
  next
    case False
    then have lt: "sint tot < sint budget" by (simp add: word_sle_eq)
    show ?thesis
    proof (cases "isReplicas g = 0")
      case True
      with False Cons.prems have "selectLoop gens tot budget w = ((n, e), w')" by simp
      from Cons.IH[OF Cons.prems(1) this] obtain seg where
        "w' = w\<lparr>trace := trace w @ seg\<rparr>"
        "int (patchedCount seg) \<le> max 0 (sint budget - sint tot)"
        "filter isScaleCall seg = []"
        "(\<forall>a b c. e \<noteq> Some (InvalidRequest a b c)) \<longrightarrow> n = tot + of_nat (patchedCount seg)"
        "(\<forall>g \<in> set gens. 0 \<le> sint (isReplicas g)) \<longrightarrow> (\<forall>a b c. e \<noteq> Some (InvalidRequest a b c))"
        by (elim exE conjE) (rule that, assumption+)
      then show ?thesis by (intro exI[of _ seg]) simp
    next
      case nz: False
      define ready :: int32 where
        "ready = word_of_int (IntMin (sint (isReplicas g)) (sint (budget - tot)))"
      define new where "new = isReplicas g - ready"
      have drain: "isReplicas g - new = ready" by (simp add: new_def)
      note new_eq = new_def[unfolded ready_def]
      show ?thesis
      proof (cases "isReplicas g <s new")
        case True
        from Cons.prems(2) selectLoop_Cons_invalid[OF False nz new_eq True, of gens w]
        have r: "n = 0" "e = Some (InvalidRequest (isName g) (isReplicas g) new)" "w' = w"
          by simp_all
        have "\<not> 0 \<le> sint (isReplicas g)"
        proof
          assume "0 \<le> sint (isReplicas g)"
          from newReplicasCount_not_above[OF Cons.prems(1) lt this ready_def] True[unfolded new_def]
          show False by (rule notE)
        qed
        with r show ?thesis by (intro exI[of _ "[]"]) simp
      next
        case ok: False
        obtain sel e1 w1 where l: "labelMachinesToSelectedForUpdate g new w = ((sel, e1), w1)"
          by (metis surj_pair)
        have ok': "\<not> isReplicas g <s isReplicas g - ready" using ok unfolding new_def .
        note rb0 = readyForUpdateCount_bounds[OF Cons.prems(1) lt ready_def ok']
        have rb: "0 \<le> sint ready" "sint ready \<le> sint budget - sint tot"
          using rb0 by blast+
        have d0: "0 \<le> sint (isReplicas g - new)" using rb(1) by (simp only: drain)
        from labelMachinesToSelectedForUpdate_count[OF d0 l]
        obtain seg1 where s1: "w1 = w\<lparr>trace := trace w @ seg1\<rparr>"
          "int (patchedCount seg1) \<le> sint (isReplicas g - new)" "sel = of_nat (patchedCount seg1)"
          "filter isScaleCall seg1 = []" "\<forall>a b c. e1 \<noteq> Some (InvalidRequest a b c)"
          by (elim exE conjE) (rule that, assumption+)
        have k1: "int (patchedCount seg1) \<le> sint ready" using s1(2) by (simp only: drain)
        note step = selectLoop_Cons_label[OF False nz new_eq ok, of gens w]
        show ?thesis
        proof (cases e1)
          case (Some err)
          from Cons.prems(2) step l Some
          have "n = tot + sel" "e = Some err" "w' = w1"
            by simp_all
          with s1 k1 rb Some show ?thesis by (intro exI[of _ seg1]) simp
        next
          case None
          from Cons.prems(2) step l None
          have rec: "selectLoop gens (tot + sel) budget w1 = ((n, e), w')"
            by simp
          have st: "sint (tot + sel) = sint tot + int (patchedCount seg1)"
            unfolding s1(3) using Cons.prems(1) k1 rb(2) sint32_bounds[of budget]
            by (intro sint32_add_nat) simp_all
          with Cons.prems(1) have "0 \<le> sint (tot + sel)" by simp
          from Cons.IH[OF this rec] obtain seg2 where s2:
            "w' = w1\<lparr>trace := trace w1 @ seg2\<rparr>"
            "int (patchedCount seg2) \<le> max 0 (sint budget - sint (tot + sel))"
            "filter isScaleCall seg2 = []"
            "(\<forall>a b c. e \<noteq> Some (InvalidRequest a b c)) \<longrightarrow> n = tot + sel + of_nat (patchedCount seg2)"
            "(\<forall>g \<in> set gens. 0 \<le> sint (isReplicas g)) \<longrightarrow> (\<forall>a b c. e \<noteq> Some (InvalidRequest a b c))"
            by (elim exE conjE) (rule that, assumption+)
          from s2(2) st k1 rb(2)
          have "int (patchedCount seg1) + int (patchedCount seg2) \<le> max 0 (sint budget - sint tot)"
            by simp
          with s1 s2 show ?thesis
            by (intro exI[of _ "seg1 @ seg2"]) (simp add: add.assoc)
        qed
      qed
    qed
  qed
qed

lemma IntMin_word:
  "(word_of_int (IntMin (sint (r :: int32)) (sint (m :: int32))) :: int32)
     = (if sint r \<le> sint m then r else m)"
proof (cases "sint r = sint m")
  case True
  then have "r = m" by (rule signed_word_eqI)
  then show ?thesis by (simp add: IntMin_def)
next
  case False
  then show ?thesis by (auto simp add: IntMin_def)
qed

lemma selectLoop_is_selectSpec:
  "selectLoop gens tot budget w = selectSpec gens tot budget w"
proof (induction gens arbitrary: tot w)
  case Nil
  show ?case by simp
next
  case (Cons g gens)
  show ?case
    by (simp add: Let_def IntMin_word word_sle_eq word_sless_alt Cons.IH
        split: prod.splits option.splits)
qed

lemma sint32_sub_le:
  assumes "sint (m :: int32) < sint (a :: int32)"
  shows "max 0 (sint (a - m)) \<le> sint a - sint m"
proof -
  have "sint (a - m) = signed_take_bit 31 (sint a - sint m)"
    by (simp add: sint_word_ariths)
  also have "\<dots> \<le> sint a - sint m"
    using assms by (simp add: signed_take_bit_int_less_eq_self_iff)
  finally show ?thesis using assms by simp
qed

section \<open>C8: a new count above the old one is a fatal error\<close>

text \<open>The loop over a list of generations goes on with the rest of the list when it has
  run through a first part without an error and with budget left.\<close>

lemma selectLoop_append:
  assumes "selectLoop earlier tot0 budget w = ((tot, None), w1)"
    and "\<not> budget \<le>s tot"
  shows "selectLoop (earlier @ rest) tot0 budget w = selectLoop rest tot budget w1"
  using assms
proof (induction earlier arbitrary: tot0 w)
  case Nil
  then show ?case by simp
next
  case (Cons g earlier)
  show ?case
  proof (cases "budget \<le>s tot0")
    case True
    with Cons.prems(1) have "tot = tot0" by simp
    with True Cons.prems(2) show ?thesis by simp
  next
    case nb: False
    show ?thesis
    proof (cases "isReplicas g = 0")
      case True
      with nb Cons.prems(1) have "selectLoop earlier tot0 budget w = ((tot, None), w1)" by simp
      from Cons.IH[OF this Cons.prems(2)] nb True show ?thesis by simp
    next
      case nz: False
      define new where "new = isReplicas g -
           word_of_int (IntMin (sint (isReplicas g)) (sint (budget - tot0)))"
      show ?thesis
      proof (cases "isReplicas g <s new")
        case True
        from selectLoop_Cons_invalid[OF nb nz new_def True, of earlier w] Cons.prems(1)
        show ?thesis by simp
      next
        case ok: False
        note step = selectLoop_Cons_label[OF nb nz new_def ok]
        obtain sel e w2 where l: "labelMachinesToSelectedForUpdate g new w = ((sel, e), w2)"
          by (cases "labelMachinesToSelectedForUpdate g new w") auto
        show ?thesis
        proof (cases e)
          case (Some err)
          with step[of earlier w] l Cons.prems(1) show ?thesis by simp
        next
          case None
          with step[of earlier w] l Cons.prems(1)
          have "selectLoop earlier (tot0 + sel) budget w2 = ((tot, None), w1)" by simp
          from Cons.IH[OF this Cons.prems(2)]
          have "selectLoop (earlier @ rest) (tot0 + sel) budget w2 = selectLoop rest tot budget w1" .
          with step[of "earlier @ rest" w] l None show ?thesis by simp
        qed
      qed
    qed
  qed
qed

text \<open>
  C8, in the form that holds. Let \<open>selectMachineForUpdate\<close> have budget
  (\<open>availableMachineCount > minAvailable\<close>), let its loop have run through the
  generations \<open>earlier\<close> than \<open>targetIS\<close> without an error, with budget left
  and \<open>totalReadyForUpdate\<close> machines selected, and let the new replica count computed
  for \<open>targetIS\<close> exceed its replica count. Then the function returns the count 0
  together with the error that names the generation, its replica count and the computed
  count; nothing is clamped. The state it returns is the state the earlier generations
  left: no machine of \<open>targetIS\<close> or of a later generation is labelled, and the
  \<open>totalReadyForUpdate\<close> machines labelled for the earlier generations stay labelled.
\<close>

theorem C8_invalid_request_is_fatal:
  assumes "minAvailable = dReplicas deployment - MaxUnavailable dc deployment"
    and "availableMachineCount =
           GetAvailableReplicaCountForMachineSets allISs - oldISsMachinesUndergoingUpdate"
    and "\<not> availableMachineCount \<le>s minAvailable"
    and "totalReadyForUpdateCount = availableMachineCount - minAvailable"
    and "sortByCreationTimestamp oldISs = earlier @ targetIS # later"
    and "selectLoop earlier 0 totalReadyForUpdateCount w = ((totalReadyForUpdate, None), w1)"
    and "\<not> totalReadyForUpdateCount \<le>s totalReadyForUpdate"
    and "isReplicas targetIS \<noteq> 0"
    and "newReplicasCount = isReplicas targetIS -
           word_of_int (IntMin (sint (isReplicas targetIS))
              (sint (totalReadyForUpdateCount - totalReadyForUpdate)))"
    and "isReplicas targetIS <s newReplicasCount"
  shows "selectMachineForUpdate dc allISs oldISs deployment oldISsMachinesUndergoingUpdate w =
           ((0, Some (InvalidRequest (isName targetIS) (isReplicas targetIS) newReplicasCount)), w1)
         \<and> (\<exists>seg. w1 = w\<lparr>trace := trace w @ seg\<rparr>
                \<and> totalReadyForUpdate = of_nat (patchedCount seg))"
proof -
  have "selectMachineForUpdate dc allISs oldISs deployment oldISsMachinesUndergoingUpdate w
          = selectLoop (earlier @ targetIS # later) 0 totalReadyForUpdateCount w"
    using assms(1-5) by (simp add: selectMachineForUpdate_def Let_def)
  also have "\<dots> = selectLoop (targetIS # later) totalReadyForUpdate totalReadyForUpdateCount w1"
    by (rule selectLoop_append[OF assms(6,7)])
  also have "\<dots> = ((0, Some (InvalidRequest (isName targetIS) (isReplicas targetIS)
                              newReplicasCount)), w1)"
    by (rule selectLoop_Cons_invalid[OF assms(7,8,9,10)])
  finally have r: "selectMachineForUpdate dc allISs oldISs deployment
      oldISsMachinesUndergoingUpdate w =
      ((0, Some (InvalidRequest (isName targetIS) (isReplicas targetIS) newReplicasCount)), w1)" .
  have z: "0 \<le> sint (0 :: int32)" by simp
  from selectLoop_invariant[OF z assms(6)] obtain seg where
    "w1 = w\<lparr>trace := trace w @ seg\<rparr>"
    "(\<forall>a b c. (None :: error option) \<noteq> Some (InvalidRequest a b c)) \<longrightarrow>
       totalReadyForUpdate = 0 + of_nat (patchedCount seg)"
    by (elim exE conjE) (rule that, assumption+)
  then have "\<exists>seg. w1 = w\<lparr>trace := trace w @ seg\<rparr>
                \<and> totalReadyForUpdate = of_nat (patchedCount seg)"
    by (intro exI[of _ seg]) simp
  with r show ?thesis by (rule conjI)
qed

text \<open>The theorem on an old generation of three replicas with two candidate machines,
  followed by a generation with replica count \<open>-1\<close>, the budget being 3.\<close>

lemma ex_late_prefix:
  "fst (selectLoop [ex_old] 0 3 ex_world) = (2, None)"
  by (simp add: labelMachinesToSelectedForUpdate_def getMachinesForDrain_def IntMin_def
      word_sle_eq word_sless_alt ex_defs model_defs)

theorem C8_witness:
  "selectMachineForUpdate ex_dc [ex_old, ex_late] [ex_old, ex_late] ex_d 0 ex_world =
     ((0, Some (InvalidRequest ''late'' (- 1) 0)), snd (selectLoop [ex_old] 0 3 ex_world))"
proof -
  have h1: "(2 :: int32) = dReplicas ex_d - MaxUnavailable ex_dc ex_d" by (simp add: ex_defs)
  have h2: "(5 :: int32) = GetAvailableReplicaCountForMachineSets [ex_old, ex_late] - 0"
    by (simp add: GetAvailableReplicaCountForMachineSets_def ex_defs)
  have h3: "\<not> (5 :: int32) \<le>s 2" by (simp add: word_sle_eq)
  have h4: "(3 :: int32) = 5 - 2" by simp
  have h5: "sortByCreationTimestamp [ex_old, ex_late] = [ex_old] @ ex_late # []"
    by (simp add: sortByCreationTimestamp_def ex_defs)
  have h6: "selectLoop [ex_old] 0 3 ex_world = ((2, None), snd (selectLoop [ex_old] 0 3 ex_world))"
    using ex_late_prefix by (metis prod.collapse)
  have h7: "\<not> (3 :: int32) \<le>s 2" by (simp add: word_sle_eq)
  have h8: "isReplicas ex_late \<noteq> 0" by (simp add: ex_late_def)
  have h9: "(0 :: int32) = isReplicas ex_late -
           word_of_int (IntMin (sint (isReplicas ex_late)) (sint ((3 :: int32) - 2)))"
    by (simp add: ex_late_def IntMin_def)
  have h10: "isReplicas ex_late <s 0" by (simp add: ex_late_def word_sless_alt)
  from C8_invalid_request_is_fatal[OF h1 h2 h3 h4 h5 h6 h7 h8 h9 h10]
  show ?thesis by (simp add: ex_late_def)
qed

text \<open>
  C8 as stated fails: on the same input the function returns the error and the count 0,
  and two machines have been labelled selected-for-update on that path.
\<close>

theorem C8_counterexample:
  "fst (selectMachineForUpdate ex_dc [ex_old, ex_late] [ex_old, ex_late] ex_d 0 ex_world)
     = (0, Some (InvalidRequest ''late'' (- 1) 0))
   \<and> patchedCount (trace (snd (selectMachineForUpdate ex_dc [ex_old, ex_late]
        [ex_old, ex_late] ex_d 0 ex_world))) = 2"
  by (simp add: selectMachineForUpdate_def sortByCreationTimestamp_def
      GetAvailableReplicaCountForMachineSets_def labelMachinesToSelectedForUpdate_def
      getMachinesForDrain_def IntMin_def patchedCount_def
      word_sle_eq word_sless_alt ex_defs model_defs)

section \<open>C2: the budget of a selection\<close>

text \<open>
  C2. With \<open>minAvailable\<close> the deployment's replicas minus \<open>maxUnavailable\<close> and
  \<open>availableMachineCount\<close> the available replicas of all generations minus the
  machines of the old generations already undergoing update: the calls of
  \<open>selectMachineForUpdate\<close> extend the trace by \<open>seg\<close>; when
  \<open>availableMachineCount \<le> minAvailable\<close> it calls nothing and returns
  \<open>(0, nil)\<close>; otherwise the machines it labelled selected-for-update (its successful
  machine patches) are at most \<open>availableMachineCount - minAvailable\<close>, taken in the
  integers. Unless it returns the invalid-request error, the count it returns is the
  number of machines it labelled.
\<close>

theorem C2_budget_respected:
  assumes "selectMachineForUpdate dc allISs oldISs deployment oldISsMachinesUndergoingUpdate w
             = ((n, e), w')"
    and "minAvailable = dReplicas deployment - MaxUnavailable dc deployment"
    and "availableMachineCount =
           GetAvailableReplicaCountForMachineSets allISs - oldISsMachinesUndergoingUpdate"
  shows "\<exists>seg. w' = w\<lparr>trace := trace w @ seg\<rparr>
           \<and> (availableMachineCount \<le>s minAvailable \<longrightarrow> seg = [] \<and> n = 0 \<and> e = None)
           \<and> (minAvailable <s availableMachineCount \<longrightarrow>
                 int (patchedCount seg) \<le> sint availableMachineCount - sint minAvailable)
           \<and> ((\<forall>a b c. e \<noteq> Some (InvalidRequest a b c)) \<longrightarrow> n = of_nat (patchedCount seg))"
proof (cases "availableMachineCount \<le>s minAvailable")
  case True
  with assms have "n = 0" "e = None" "w' = w"
    by (simp_all add: selectMachineForUpdate_def Let_def)
  with True show ?thesis by (intro exI[of _ "[]"]) (simp add: word_sle_eq word_sless_alt)
next
  case False
  with assms have l: "selectLoop (sortByCreationTimestamp oldISs) 0
      (availableMachineCount - minAvailable) w = ((n, e), w')"
    by (simp add: selectMachineForUpdate_def Let_def)
  have z: "0 \<le> sint (0 :: int32)" by simp
  from selectLoop_invariant[OF z l] obtain seg where s:
    "w' = w\<lparr>trace := trace w @ seg\<rparr>"
    "int (patchedCount seg) \<le> max 0 (sint (availableMachineCount - minAvailable) - sint (0 :: int32))"
    "(\<forall>a b c. e \<noteq> Some (InvalidRequest a b c)) \<longrightarrow> n = 0 + of_nat (patchedCount seg)"
    by (elim exE conjE) (rule that, assumption+)
  from False have lt: "sint minAvailable < sint availableMachineCount"
    by (simp add: word_sle_eq)
  from s(2) have "int (patchedCount seg) \<le> max 0 (sint (availableMachineCount - minAvailable))"
    by simp
  from this sint32_sub_le[OF lt]
  have "int (patchedCount seg) \<le> sint availableMachineCount - sint minAvailable"
    by (rule order_trans)
  with s False show ?thesis by (intro exI[of _ seg]) simp
qed

text \<open>The theorem on a deployment of three replicas with one allowed unavailable: one of the
  two candidate machines is labelled.\<close>

theorem C2_witness:
  "fst (selectMachineForUpdate ex_dc [ex_old, ex_new] [ex_old] ex_d 0 ex_world) = (1, None)
   \<and> int (patchedCount (trace (snd (selectMachineForUpdate ex_dc [ex_old, ex_new] [ex_old]
            ex_d 0 ex_world)))) \<le> sint (3 :: int32) - sint (2 :: int32)"
proof -
  let ?r = "selectMachineForUpdate ex_dc [ex_old, ex_new] [ex_old] ex_d 0 ex_world"
  have v: "fst ?r = (1, None)"
    by (simp add: selectMachineForUpdate_def sortByCreationTimestamp_def
        GetAvailableReplicaCountForMachineSets_def labelMachinesToSelectedForUpdate_def
        getMachinesForDrain_def IntMin_def word_sle_eq word_sless_alt ex_defs model_defs)
  then have h: "?r = ((1, None), snd ?r)" by (metis prod.collapse)
  have m: "(2 :: int32) = dReplicas ex_d - MaxUnavailable ex_dc ex_d"
    by (simp add: ex_defs)
  have a: "(3 :: int32) = GetAvailableReplicaCountForMachineSets [ex_old, ex_new] - 0"
    by (simp add: GetAvailableReplicaCountForMachineSets_def ex_defs)
  have lt: "(2 :: int32) <s 3" by (simp add: word_sless_alt)
  have t: "trace ex_world = []" by (simp add: ex_defs)
  from C2_budget_respected[OF h m a] lt t
  have "int (patchedCount (trace (snd ?r))) \<le> sint (3 :: int32) - sint (2 :: int32)"
    by auto
  with v show ?thesis by simp
qed

section \<open>C10: the invalid-request error is unreachable for nonnegative replica counts\<close>

text \<open>
  C10. When every old generation has a desired replica count of at least zero,
  \<open>selectMachineForUpdate\<close> never returns the invalid-request error.
\<close>

theorem C10_invalid_request_unreachable:
  assumes "\<forall>g \<in> set oldISs. 0 \<le>s isReplicas g"
  shows "snd (fst (selectMachineForUpdate dc allISs oldISs deployment
                     oldISsMachinesUndergoingUpdate w))
           \<noteq> Some (InvalidRequest name old new)"
proof (cases "GetAvailableReplicaCountForMachineSets allISs - oldISsMachinesUndergoingUpdate
                \<le>s dReplicas deployment - MaxUnavailable dc deployment")
  case True
  then show ?thesis by (simp add: selectMachineForUpdate_def Let_def)
next
  case False
  let ?b = "GetAvailableReplicaCountForMachineSets allISs - oldISsMachinesUndergoingUpdate
              - (dReplicas deployment - MaxUnavailable dc deployment)"
  obtain n e w' where l: "selectLoop (sortByCreationTimestamp oldISs) 0 ?b w = ((n, e), w')"
    by (cases "selectLoop (sortByCreationTimestamp oldISs) 0 ?b w") auto
  have z: "0 \<le> sint (0 :: int32)" by simp
  from selectLoop_invariant[OF z l] obtain seg where
    "(\<forall>g \<in> set (sortByCreationTimestamp oldISs). 0 \<le> sint (isReplicas g)) \<longrightarrow>
       (\<forall>a b c. e \<noteq> Some (InvalidRequest a b c))"
    by (elim exE conjE) (rule that, assumption+)
  with assms have "e \<noteq> Some (InvalidRequest name old new)"
    by (simp add: sortByCreationTimestamp_def word_sle_eq)
  with False l show ?thesis by (simp add: selectMachineForUpdate_def Let_def)
qed

text \<open>The theorem on the deployment of three replicas.\<close>

theorem C10_witness:
  "0 \<le>s isReplicas ex_old
   \<and> snd (fst (selectMachineForUpdate ex_dc [ex_old, ex_new] [ex_old] ex_d 0 ex_world))
        \<noteq> Some (InvalidRequest ''old'' 3 4)"
proof -
  have h: "\<forall>g \<in> set [ex_old]. 0 \<le>s isReplicas g"
    by (simp add: ex_defs word_sle_eq)
  from C10_invalid_request_unreachable[OF h, of ex_dc "[ex_old, ex_new]" ex_d 0 ex_world "''old''" 3 4] h
  show ?thesis by simp
qed

section \<open>C6: the steps of the selection\<close>

text \<open>
  C6. \<open>selectMachineForUpdate\<close> is the selection of the specification
  (\<open>selectSpec\<close>: stop when the total reaches the budget, skip a generation with zero
  replicas, select the minimum of the generation's replicas and the remaining budget, new
  count the replicas minus that minimum) run over the old generations in ascending order
  of creation timestamp, with the budget \<open>availableMachineCount - minAvailable\<close>.
\<close>

theorem C6_selection_steps:
  "selectMachineForUpdate dc allISs oldISs deployment oldISsMachinesUndergoingUpdate w =
     (let minAvailable = dReplicas deployment - MaxUnavailable dc deployment;
          availableMachineCount =
            GetAvailableReplicaCountForMachineSets allISs - oldISsMachinesUndergoingUpdate
      in if sint availableMachineCount \<le> sint minAvailable then ((0, None), w)
         else selectSpec (sortByCreationTimestamp oldISs) 0
                (availableMachineCount - minAvailable) w)
   \<and> sorted (map isCreationTimestamp (sortByCreationTimestamp oldISs))
   \<and> set (sortByCreationTimestamp oldISs) = set oldISs
   \<and> length (sortByCreationTimestamp oldISs) = length oldISs"
  by (simp add: selectMachineForUpdate_def Let_def selectLoop_is_selectSpec word_sle_eq
      sortByCreationTimestamp_def)


section \<open>The transfer loops\<close>

lemma transferredCount_simps [simp]:
  "transferredCount [] = 0"
  "transferredCount (a @ b) = transferredCount a + transferredCount b"
  "transferredCount (c # b) = (if isTransferred c then 1 else 0) + transferredCount b"
  by (simp_all add: transferredCount_def)

lemma PatchMachine_eq:
  "machineControl_PatchMachine ns name p w =
     (map_option ApiError (faults w (length (trace w)) (PatchMachine ns name p)),
      w\<lparr>trace := trace w @ [(PatchMachine ns name p,
                                 faults w (length (trace w)) (PatchMachine ns name p))]\<rparr>)"
  by (simp add: machineControl_PatchMachine_def invoke_eq split: option.splits)

lemma nodes_Update_frame:
  assumes "nodes_Update n w = (e, w')"
  shows "\<exists>r. trace w' = trace w @ [(UpdateNode n, r)] \<and> replicasStore w' = replicasStore w
           \<and> e = map_option ApiError r"
  using assms by (auto simp: nodes_Update_def invoke_eq split: option.splits)

lemma scale_frame:
  assumes "scaleMachineSetAndRecordEvent g k d w = ((b, e), w')"
  shows "\<exists>r. trace w' = trace w @ [(ScaleMachineSet (isName g) k, r)]
           \<and> e = map_option ApiError r
           \<and> replicasStore w' = (if r = None then (replicasStore w)(isName g := k)
                                  else replicasStore w)"
  using assms by (auto simp: scaleMachineSetAndRecordEvent_def invoke_eq split: option.splits)

lemma scale_ok:
  assumes "scaleMachineSetAndRecordEvent g k d w = ((b, None), w')"
  shows "trace w' = trace w @ [(ScaleMachineSet (isName g) k, None)]"
    and "replicasStore w' = (replicasStore w)(isName g := k)"
  using scale_frame[OF assms] by auto

lemma lister_frames:
  "machineLister_List sel w = (x, w') \<Longrightarrow>
     \<exists>r. trace w' = trace w @ [(ListMachines sel, r)] \<and> replicasStore w' = replicasStore w"
  "nodeLister_List sel w = (y, w') \<Longrightarrow>
     \<exists>r. trace w' = trace w @ [(ListNodes sel, r)] \<and> replicasStore w' = replicasStore w"
  by (auto simp: machineLister_List_def nodeLister_List_def invoke_eq split: option.splits)

lemma transferNodes_Inr:
  "transferNodes dc g newIS d machines nodes t a w = (Inr (t', a'), w') \<Longrightarrow>
     \<exists>seg. trace w' = trace w @ seg \<and> replicasStore w' = replicasStore w
        \<and> t' = t + of_nat (transferredCount seg) \<and> a' = a + of_nat (transferredCount seg)
        \<and> filter isScaleCall seg = []"
proof (induction nodes arbitrary: t a w)
  case Nil
  then show ?case by (intro exI[of _ "[]"]) simp
next
  case (Cons node nodes)
  show ?case
  proof (cases "getMachineFromNode dc machines node")
    case (Inl e)
    with Cons.prems have "transferNodes dc g newIS d machines nodes t a w = (Inr (t', a'), w')"
      by simp
    from Cons.IH[OF this] show ?thesis .
  next
    case (Inr machine)
    define p where "p = OwnerPatch (isName newIS) (isUID newIS)
        (MergeStringMaps (MergeWithOverwriteAndFilter dc (mLabels machine) (isSelector g)
           (isSelector newIS)) [(LabelKeyMachineUpdateSuccessful, ''true'')]) (mUID machine)"
    define c where "c = PatchMachine (mNamespace machine) (mName machine) p"
    define r where "r = faults w (length (trace w)) c"
    define w1 where "w1 = w\<lparr>trace := trace w @ [(c, r)]\<rparr>"
    have pm: "machineControl_PatchMachine (mNamespace machine) (mName machine) p w
                = (map_option ApiError r, w1)"
      by (simp add: PatchMachine_eq r_def c_def w1_def)
    show ?thesis
    proof (cases r)
      case (Some e)
      with Cons.prems Inr pm have False
        by (simp add: Let_def p_def split: prod.splits option.splits)
      then show ?thesis ..
    next
      case None
      define node' where "node' = node\<lparr>nUnschedulable := False\<rparr>"
      define w1' where "w1' = w1\<lparr>nodeCache :=
           map (\<lambda>x. if nName x = nName node then node' else x) (nodeCache w1)\<rparr>"
      obtain e2 w2 where u: "nodes_Update node' w1' = (e2, w2)"
        by (cases "nodes_Update node' w1'")
      from nodes_Update_frame[OF u] obtain r2 where
        r2: "trace w2 = trace w1' @ [(UpdateNode node', r2)]" "replicasStore w2 = replicasStore w1'"
            "e2 = map_option ApiError r2"
        by (elim exE conjE) (rule that, assumption+)
      show ?thesis
      proof (cases e2)
        case (Some err)
        with Cons.prems Inr pm None u[unfolded w1'_def node'_def] have False
          by (simp add: Let_def p_def)
        then show ?thesis ..
      next
        case n2: None
        with Cons.prems Inr pm None u[unfolded w1'_def node'_def]
        have "transferNodes dc g newIS d machines nodes (t + 1) (a + 1) w2 = (Inr (t', a'), w')"
          by (simp add: Let_def p_def)
        from Cons.IH[OF this] obtain seg where s:
          "trace w' = trace w2 @ seg" "replicasStore w' = replicasStore w2"
          "t' = t + 1 + of_nat (transferredCount seg)" "a' = a + 1 + of_nat (transferredCount seg)"
          "filter isScaleCall seg = []"
          by (elim exE conjE) (rule that, assumption+)
        from n2 r2(3) have r2n: "r2 = None" by simp
        have tr: "trace w' = trace w @ ((c, r) # (UpdateNode node', r2) # seg)"
          using s(1) r2(1) by (simp add: w1'_def w1_def)
        have st: "replicasStore w' = replicasStore w"
          using s(2) r2(2) by (simp add: w1'_def w1_def)
        have cnt: "transferredCount ((c, r) # (UpdateNode node', r2) # seg) = 1 + transferredCount seg"
          using None by (simp add: c_def p_def)
        show ?thesis
          using tr st cnt s(3,4,5)
          by (intro exI[of _ "(c, r) # (UpdateNode node', r2) # seg"]) (simp add: c_def)
      qed
    qed
  qed
qed

lemma transferMachineSets_Inr:
  assumes "distinct (map isName gens)"
    and "transferMachineSets dc gens newIS d a w = (Inr a', w')"
  shows "\<exists>segs. trace w' = trace w @ concat segs
      \<and> a' = a + of_nat (sum_list (map transferredCount segs))
      \<and> list_all2 (\<lambda>g seg.
            replicasStore w' (isName g) = isReplicas g - of_nat (transferredCount seg)
            \<and> seg \<noteq> []
            \<and> last seg = (ScaleMachineSet (isName g)
                             (isReplicas g - of_nat (transferredCount seg)), None)
            \<and> length (filter isScaleCall seg) = 1) gens segs
      \<and> (\<forall>x. x \<notin> set (map isName gens) \<longrightarrow> replicasStore w' x = replicasStore w x)"
  using assms
proof (induction gens arbitrary: a w)
  case Nil
  then show ?case by (intro exI[of _ "[]"]) simp
next
  case (Cons g gens)
  from Cons.prems(2) obtain machines w1 nodes w2 t a1 w3 b w4 where
    ml: "machineLister_List (isSelector g) w = (Inr machines, w1)"
    and nl: "nodeLister_List [(LabelKeyMachineUpdateSuccessful, ''true'')] w1 = (Inr nodes, w2)"
    and tn: "transferNodes dc g newIS d machines nodes 0 a w2 = (Inr (t, a1), w3)"
    and sc: "scaleMachineSetAndRecordEvent g (isReplicas g - t) d w3 = ((b, None), w4)"
    and rec: "transferMachineSets dc gens newIS d a1 w4 = (Inr a', w')"
    by (auto split: prod.splits sum.splits option.splits)
  from lister_frames(1)[OF ml] obtain r1 where
    f1: "trace w1 = trace w @ [(ListMachines (isSelector g), r1)]" "replicasStore w1 = replicasStore w"
    by (elim exE conjE) (rule that, assumption+)
  from lister_frames(2)[OF nl] obtain r2 where
    f2: "trace w2 = trace w1 @ [(ListNodes [(LabelKeyMachineUpdateSuccessful, ''true'')], r2)]"
        "replicasStore w2 = replicasStore w1"
    by (elim exE conjE) (rule that, assumption+)
  from transferNodes_Inr[OF tn] obtain segN where
    f3: "trace w3 = trace w2 @ segN" "replicasStore w3 = replicasStore w2"
        "t = 0 + of_nat (transferredCount segN)" "a1 = a + of_nat (transferredCount segN)"
        "filter isScaleCall segN = []"
    by (elim exE conjE) (rule that, assumption+)
  note f4 = scale_ok[OF sc]
  define seg where "seg = (ListMachines (isSelector g), r1)
      # (ListNodes [(LabelKeyMachineUpdateSuccessful, ''true'')], r2)
      # segN @ [(ScaleMachineSet (isName g) (isReplicas g - t), None)]"
  have cnt: "transferredCount seg = transferredCount segN" by (simp add: seg_def)
  have t: "t = of_nat (transferredCount seg)" using f3(3) cnt by simp
  have tr4: "trace w4 = trace w @ seg" using f1 f2 f3 f4 by (simp add: seg_def)
  have st4: "replicasStore w4 = (replicasStore w)(isName g := isReplicas g - t)"
    using f1 f2 f3 f4 by simp
  from Cons.prems(1) have d: "distinct (map isName gens)" and ng: "isName g \<notin> set (map isName gens)"
    by simp_all
  from Cons.IH[OF d rec] obtain segs where ih:
    "trace w' = trace w4 @ concat segs"
    "a' = a1 + of_nat (sum_list (map transferredCount segs))"
    "list_all2 (\<lambda>g seg.
            replicasStore w' (isName g) = isReplicas g - of_nat (transferredCount seg)
            \<and> seg \<noteq> []
            \<and> last seg = (ScaleMachineSet (isName g)
                             (isReplicas g - of_nat (transferredCount seg)), None)
            \<and> length (filter isScaleCall seg) = 1) gens segs"
    "\<forall>x. x \<notin> set (map isName gens) \<longrightarrow> replicasStore w' x = replicasStore w4 x"
    by (elim exE conjE) (rule that, assumption+)
  have g1: "replicasStore w' (isName g) = isReplicas g - of_nat (transferredCount seg)"
    using ih(4) ng st4 t by simp
  have g2: "seg \<noteq> []" by (simp add: seg_def)
  have g3: "last seg = (ScaleMachineSet (isName g) (isReplicas g - of_nat (transferredCount seg)), None)"
    using t by (simp add: seg_def)
  have g4: "length (filter isScaleCall seg) = 1" using f3(5) by (simp add: seg_def)
  have c1: "trace w' = trace w @ concat (seg # segs)" using ih(1) tr4 by simp
  have c2: "a' = a + of_nat (sum_list (map transferredCount (seg # segs)))"
    using ih(2) f3(4) cnt by simp
  have c4: "\<forall>x. x \<notin> set (map isName (g # gens)) \<longrightarrow> replicasStore w' x = replicasStore w x"
    using ih(4) st4 by simp
  show ?case
    using c1 c2 c4 g1 g2 g3 g4 ih(3) by (intro exI[of _ "seg # segs"]) simp
qed

lemma scaled_down_sum:
  assumes "list_all2 (\<lambda>g seg. f g = isReplicas g - of_nat (c seg) \<and> P g seg) gens segs"
  shows "sum_list (map f gens) + of_nat (sum_list (map c segs)) = sum_list (map isReplicas gens)"
  using assms by (induction gens segs rule: list_all2_induct) simp_all

lemma transferNodes_Inl:
  "transferNodes dc g newIS d machines nodes t a w = (Inl (b, e), w') \<Longrightarrow> e \<noteq> None"
proof (induction nodes arbitrary: t a w)
  case Nil
  then show ?case by simp
next
  case (Cons node nodes)
  show ?case
  proof (cases "getMachineFromNode dc machines node")
    case (Inl x)
    with Cons.prems have "transferNodes dc g newIS d machines nodes t a w = (Inl (b, e), w')"
      by simp
    from Cons.IH[OF this] show ?thesis .
  next
    case (Inr machine)
    with Cons.prems Cons.IH show ?thesis
      by (auto simp: Let_def split: prod.splits option.splits)
  qed
qed

lemma transferMachineSets_Inl:
  "transferMachineSets dc gens newIS d a w = (Inl (b, e), w') \<Longrightarrow> e \<noteq> None"
proof (induction gens arbitrary: a w)
  case Nil
  then show ?case by simp
next
  case (Cons g gens)
  from Cons.prems Cons.IH show ?case
    by (auto split: prod.splits sum.splits option.splits dest: transferNodes_Inl)
qed

section \<open>C1: the replicas are conserved by a transfer\<close>

text \<open>
  C1. Let \<open>reconcileNewMachineSetInPlace\<close> return without an error for a new
  generation under the deployment's replica count, the generations having distinct names.
  Then its calls are one segment per old generation, in order, followed by the scale call
  of the new generation. The segment of an old generation ends with its only scale call,
  which sets the generation's count to its replicas minus the number of machines whose
  ownership was transferred in that segment; the new generation is set to its replicas
  plus the number of all machines transferred. So the desired counts of all generations
  after the pass sum to the sum of the counts the pass started from (in \<^verbatim>\<open>int32\<close>
  arithmetic, as \<open>GetReplicaCountForMachineSets\<close> sums them), which is the sum the API
  server held before the pass when it held these counts.
\<close>

theorem C1_replica_conservation:
  assumes "isReplicas newIS <s dReplicas deployment"
    and "distinct (map isName (oldISs @ [newIS]))"
    and "reconcileNewMachineSetInPlace dc oldISs newIS deployment w = ((scaled, None), w')"
  shows "\<exists>segs.
      trace w' = trace w @ concat segs @
        [(ScaleMachineSet (isName newIS)
            (isReplicas newIS + of_nat (sum_list (map transferredCount segs))), None)]
      \<and> list_all2 (\<lambda>g seg.
            replicasStore w' (isName g) = isReplicas g - of_nat (transferredCount seg)
            \<and> seg \<noteq> []
            \<and> last seg = (ScaleMachineSet (isName g)
                             (isReplicas g - of_nat (transferredCount seg)), None)
            \<and> length (filter isScaleCall seg) = 1) oldISs segs
      \<and> replicasStore w' (isName newIS)
            = isReplicas newIS + of_nat (sum_list (map transferredCount segs))
      \<and> sum_list (map (\<lambda>g. replicasStore w' (isName g)) (oldISs @ [newIS]))
            = GetReplicaCountForMachineSets (oldISs @ [newIS])
      \<and> ((\<forall>g \<in> set (oldISs @ [newIS]). replicasStore w (isName g) = isReplicas g) \<longrightarrow>
            sum_list (map (\<lambda>g. replicasStore w' (isName g)) (oldISs @ [newIS]))
              = sum_list (map (\<lambda>g. replicasStore w (isName g)) (oldISs @ [newIS])))"
proof -
  from assms(1) have ne: "isReplicas newIS \<noteq> dReplicas deployment"
    and ngt: "\<not> dReplicas deployment <s isReplicas newIS"
    by (auto simp: word_sless_alt)
  obtain x w1 where tm: "transferMachineSets dc oldISs newIS deployment 0 w = (x, w1)"
    by (cases "transferMachineSets dc oldISs newIS deployment 0 w")
  show ?thesis
  proof (cases x)
    case (Inl r)
    obtain b e where r: "r = (b, e)" by (cases r)
    from tm Inl r have "e \<noteq> None" by (auto dest: transferMachineSets_Inl)
    moreover from assms(3) ne ngt tm Inl r have "e = None"
      by (simp add: reconcileNewMachineSetInPlace_def)
    ultimately show ?thesis by simp
  next
    case (Inr a)
    from assms(3) ne ngt tm Inr
    have sc: "scaleMachineSetAndRecordEvent newIS (isReplicas newIS + a) deployment w1
                = ((scaled, None), w')"
      by (simp add: reconcileNewMachineSetInPlace_def)
    from assms(2) have d: "distinct (map isName oldISs)"
      and nn: "isName newIS \<notin> set (map isName oldISs)" by simp_all
    from transferMachineSets_Inr[OF d tm[unfolded Inr]] obtain segs where s:
      "trace w1 = trace w @ concat segs"
      "a = 0 + of_nat (sum_list (map transferredCount segs))"
      "list_all2 (\<lambda>g seg.
            replicasStore w1 (isName g) = isReplicas g - of_nat (transferredCount seg)
            \<and> seg \<noteq> []
            \<and> last seg = (ScaleMachineSet (isName g)
                             (isReplicas g - of_nat (transferredCount seg)), None)
            \<and> length (filter isScaleCall seg) = 1) oldISs segs"
      by (elim exE conjE) (rule that, assumption+)
    note f = scale_ok[OF sc]
    have a: "a = of_nat (sum_list (map transferredCount segs))" using s(2) by simp
    have old: "replicasStore w' (isName g) = replicasStore w1 (isName g)"
      if "g \<in> set oldISs" for g
    proof -
      from that have "isName g \<in> set (map isName oldISs)" by simp
      with nn have "isName g \<noteq> isName newIS" by metis
      with f(2) show ?thesis by simp
    qed
    have l2: "list_all2 (\<lambda>g seg.
            replicasStore w' (isName g) = isReplicas g - of_nat (transferredCount seg)
            \<and> seg \<noteq> []
            \<and> last seg = (ScaleMachineSet (isName g)
                             (isReplicas g - of_nat (transferredCount seg)), None)
            \<and> length (filter isScaleCall seg) = 1) oldISs segs"
      using s(3) old by (auto simp: list_all2_conv_all_nth)
    have new: "replicasStore w' (isName newIS)
                 = isReplicas newIS + of_nat (sum_list (map transferredCount segs))"
      using f(2) a by simp
    have tr: "trace w' = trace w @ concat segs @
        [(ScaleMachineSet (isName newIS)
            (isReplicas newIS + of_nat (sum_list (map transferredCount segs))), None)]"
      using f(1) s(1) a by simp
    have "sum_list (map (\<lambda>g. replicasStore w' (isName g)) oldISs)
            + of_nat (sum_list (map transferredCount segs)) = sum_list (map isReplicas oldISs)"
      by (rule scaled_down_sum[OF l2])
    with new have sum: "sum_list (map (\<lambda>g. replicasStore w' (isName g)) (oldISs @ [newIS]))
            = GetReplicaCountForMachineSets (oldISs @ [newIS])"
      by (simp add: GetReplicaCountForMachineSets_def)
    have before: "(\<forall>g \<in> set (oldISs @ [newIS]). replicasStore w (isName g) = isReplicas g) \<longrightarrow>
            sum_list (map (\<lambda>g. replicasStore w' (isName g)) (oldISs @ [newIS]))
              = sum_list (map (\<lambda>g. replicasStore w (isName g)) (oldISs @ [newIS]))"
    proof
      assume h: "\<forall>g \<in> set (oldISs @ [newIS]). replicasStore w (isName g) = isReplicas g"
      then have m: "map (\<lambda>g. replicasStore w (isName g)) (oldISs @ [newIS])
                   = map isReplicas (oldISs @ [newIS])"
        by (intro map_cong) auto
      show "sum_list (map (\<lambda>g. replicasStore w' (isName g)) (oldISs @ [newIS]))
              = sum_list (map (\<lambda>g. replicasStore w (isName g)) (oldISs @ [newIS]))"
        unfolding sum m GetReplicaCountForMachineSets_def by (rule refl)
    qed
    show ?thesis
      using tr l2 new sum before by (intro exI[of _ segs]) (intro conjI)
  qed
qed

text \<open>The theorem on a cluster where one updated machine is transferred: the old generation
  goes from 3 to 2, the new one from 0 to 1.\<close>

theorem C1_witness:
  "sum_list (map (\<lambda>g. replicasStore
        (snd (reconcileNewMachineSetInPlace ex_dc [ex_old] ex_new ex_d ex_world2)) (isName g))
        [ex_old, ex_new]) = 3
   \<and> map (replicasStore (snd (reconcileNewMachineSetInPlace ex_dc [ex_old] ex_new ex_d ex_world2)))
        [''old'', ''new''] = [2, 1]"
proof -
  let ?r = "reconcileNewMachineSetInPlace ex_dc [ex_old] ex_new ex_d ex_world2"
  have v: "fst ?r = (True, None)"
    by (simp add: reconcileNewMachineSetInPlace_def ex_defs model_defs word_sless_alt)
  then have h: "?r = ((True, None), snd ?r)" by (metis prod.collapse)
  have u: "isReplicas ex_new <s dReplicas ex_d" by (simp add: ex_defs word_sless_alt)
  have d: "distinct (map isName ([ex_old] @ [ex_new]))" by (simp add: ex_defs)
  have g: "GetReplicaCountForMachineSets ([ex_old] @ [ex_new]) = 3"
    by (simp add: GetReplicaCountForMachineSets_def ex_defs)
  from C1_replica_conservation[OF u d h] g
  have "sum_list (map (\<lambda>g. replicasStore (snd ?r) (isName g)) [ex_old, ex_new]) = 3"
    by auto
  moreover have "map (replicasStore (snd ?r)) [''old'', ''new''] = [2, 1]"
    by (simp add: reconcileNewMachineSetInPlace_def ex_defs model_defs word_sless_alt)
  ultimately show ?thesis by simp
qed

section \<open>C5: a failed transfer patch\<close>

text \<open>What \<open>reconcileNewMachineSetInPlace\<close> does when the patch of a machine fails
  with \<open>err\<close>: it scales the new generation to its replicas plus the machines added so
  far; when that call fails with \<open>err2\<close> it returns \<open>err2\<close>; otherwise it scales the
  old generation down by the machines transferred out of it and returns \<open>err\<close>, the
  error of the patch, whether or not this second call fails.\<close>

lemma transferNodes_patch_fails:
  assumes "getMachineFromNode dc machines node = Inr machine"
    and "machineControl_PatchMachine (mNamespace machine) (mName machine)
           (OwnerPatch (isName newIS) (isUID newIS)
              (MergeStringMaps (MergeWithOverwriteAndFilter dc (mLabels machine) (isSelector g)
                 (isSelector newIS)) [(LabelKeyMachineUpdateSuccessful, ''true'')])
              (mUID machine)) w = (Some err, w1)"
  shows "transferNodes dc g newIS d machines (node # nodes) t a w =
    (case scaleMachineSetAndRecordEvent newIS (isReplicas newIS + a) d w1 of
       ((scaled, Some err2), w2) \<Rightarrow> (Inl (0 <s a, Some err2), w2)
     | ((scaled, None), w2) \<Rightarrow>
         (case scaleMachineSetAndRecordEvent g (isReplicas g - t) d w2 of
            ((_, Some err2), w3) \<Rightarrow> (Inl (0 <s a, Some err), w3)
          | ((_, None), w3) \<Rightarrow> (Inl (scaled, Some err), w3)))"
  using assms by (simp add: Let_def)

text \<open>
  C5. The claim says that the error of the patch is returned when either compensating
  scale call fails. On the cluster \<open>ex_world5\<close> the first machine is transferred, the patch of
  the second machine fails with \<open>ApiFailure 1\<close> and the compensating scale-up of the
  new generation fails with \<open>ApiFailure 2\<close>: the function returns \<open>true\<close> with
  \<open>ApiFailure 2\<close>, the error of the compensation, not the error of the patch.
\<close>

theorem C5_compensation_error_replaces_transfer_error:
  "fst (reconcileNewMachineSetInPlace ex_dc [ex_old] ex_new ex_d ex_world5)
     = (True, Some (ApiError (ApiFailure 2)))
   \<and> map snd (trace (snd (reconcileNewMachineSetInPlace ex_dc [ex_old] ex_new ex_d ex_world5)))
     = [None, None, None, None, Some (ApiFailure 1), Some (ApiFailure 2)]
   \<and> map (isPatchCall) (trace (snd (reconcileNewMachineSetInPlace ex_dc [ex_old] ex_new ex_d ex_world5)))
     = [False, False, True, False, True, False]
   \<and> last (trace (snd (reconcileNewMachineSetInPlace ex_dc [ex_old] ex_new ex_d ex_world5)))
     = (ScaleMachineSet ''new'' 1, Some (ApiFailure 2))"
  by (simp add: reconcileNewMachineSetInPlace_def ex_defs model_defs word_sless_alt)


section \<open>C9: a node that is not found\<close>

text \<open>When the only failures are node lookups that answer not-found, every machine is
  processed and neither loop returns an error.\<close>

lemma PatchMachine_ok:
  assumes "faults w (length (trace w)) (PatchMachine ns name p) = None"
  shows "machineControl_PatchMachine ns name p w
           = (None, w\<lparr>trace := trace w @ [(PatchMachine ns name p, None)]\<rparr>)"
  using assms by (simp add: PatchMachine_eq)

lemma nodes_Update_ok:
  assumes "faults w (length (trace w)) (UpdateNode n) = None"
  shows "fst (nodes_Update n w) = None \<and> faults (snd (nodes_Update n w)) = faults w"
  using assms by (simp add: nodes_Update_def invoke_eq)

lemma machineLister_List_ok:
  assumes "faults w (length (trace w)) (ListMachines sel) = None"
  shows "\<exists>ms. machineLister_List sel w
           = (Inr ms, w\<lparr>trace := trace w @ [(ListMachines sel, None)]\<rparr>)"
  using assms by (simp add: machineLister_List_def invoke_eq)

lemma nodeLister_Get_not_found:
  assumes "faults w (length (trace w)) (ListerGetNode name) = None
           \<or> faults w (length (trace w)) (ListerGetNode name) = Some NotFound"
  shows "faults (snd (nodeLister_Get name w)) = faults w
         \<and> (case fst (nodeLister_Get name w) of Inl err \<Rightarrow> IsNotFound err | Inr n \<Rightarrow> True)"
  using assms by (auto simp: nodeLister_Get_def invoke_eq split: option.splits)

lemma nodes_Get_frame:
  "faults (snd (nodes_Get name w)) = faults w"
  by (auto simp: nodes_Get_def invoke_eq split: option.splits)

lemma no_fault:
  assumes "\<forall>i c. faults w i c \<noteq> None \<longrightarrow>
             (\<exists>name. c = ListerGetNode name \<or> c = GetNode name) \<and> faults w i c = Some NotFound"
    and "\<And>name. c \<noteq> ListerGetNode name" and "\<And>name. c \<noteq> GetNode name"
  shows "faults w i c = None"
proof (rule ccontr)
  assume "faults w i c \<noteq> None"
  with assms(1) obtain name where "c = ListerGetNode name \<or> c = GetNode name" by blast
  with assms(2,3) show False by blast
qed

lemma labelCandidateMachines_tolerant:
  assumes "\<forall>i c. faults w i c \<noteq> None \<longrightarrow>
             (\<exists>name. c = ListerGetNode name \<or> c = GetNode name) \<and> faults w i c = Some NotFound"
  shows "fst (labelCandidateMachines ms w) = None
         \<and> faults (snd (labelCandidateMachines ms w)) = faults w"
  using assms
proof (induction ms arbitrary: w)
  case Nil
  show ?case by simp
next
  case (Cons m ms)
  note H = Cons.prems
  show ?case
  proof (cases "lookupLabel (mLabels m) NodeLabelKey \<noteq> []")
    case False
    with Cons.IH[OF H] show ?thesis by simp
  next
    case True
    define c where "c = PatchMachine (mNamespace m) (mName m)
       (LabelsPatch (MergeStringMaps (mLabels m) [(LabelKeyMachineCandidateForUpdate, ''true'')]))"
    define w1 where "w1 = w\<lparr>trace := trace w @ [(c, None)]\<rparr>"
    have "faults w (length (trace w)) c = None"
      by (rule no_fault[OF H]) (simp_all add: c_def)
    then have p: "machineControl_PatchMachine (mNamespace m) (mName m)
       (LabelsPatch (MergeStringMaps (mLabels m) [(LabelKeyMachineCandidateForUpdate, ''true'')])) w
         = (None, w1)"
      unfolding c_def w1_def by (rule PatchMachine_ok)
    have f1: "faults w1 = faults w" by (simp add: w1_def)
    have H1: "\<forall>i c. faults w1 i c \<noteq> None \<longrightarrow>
             (\<exists>name. c = ListerGetNode name \<or> c = GetNode name) \<and> faults w1 i c = Some NotFound"
      using H f1 by simp
    define nm where "nm = lookupLabel (mLabels m) NodeLabelKey"
    obtain x w2 where g: "nodeLister_Get nm w1 = (x, w2)" by (cases "nodeLister_Get nm w1")
    have "faults w1 (length (trace w1)) (ListerGetNode nm) = None
           \<or> faults w1 (length (trace w1)) (ListerGetNode nm) = Some NotFound"
      using H1[rule_format, of "length (trace w1)" "ListerGetNode nm"] by blast
    from nodeLister_Get_not_found[OF this] g
    have f2: "faults w2 = faults w1"
      and x: "case x of Inl err \<Rightarrow> IsNotFound err | Inr n \<Rightarrow> True" by simp_all
    have H2: "\<forall>i c. faults w2 i c \<noteq> None \<longrightarrow>
             (\<exists>name. c = ListerGetNode name \<or> c = GetNode name) \<and> faults w2 i c = Some NotFound"
      using H1 f2 by simp
    show ?thesis
    proof (cases x)
      case (Inl err)
      with x have "IsNotFound err" by simp
      with True p g Inl have "labelCandidateMachines (m # ms) w = labelCandidateMachines ms w2"
        by (simp add: nm_def)
      with Cons.IH[OF H2] f1 f2 show ?thesis by simp
    next
      case (Inr n)
      show ?thesis
      proof (cases "lookupLabel (nLabels n) LabelKeyMachineCandidateForUpdate = ''true''")
        case t: True
        with True p g Inr have "labelCandidateMachines (m # ms) w = labelCandidateMachines ms w2"
          by (simp add: nm_def)
        with Cons.IH[OF H2] f1 f2 show ?thesis by simp
      next
        case f: False
        define n' where "n' = n\<lparr>nLabels := (LabelKeyMachineCandidateForUpdate, ''true'') # nLabels n\<rparr>"
        have "faults w2 (length (trace w2)) (UpdateNode n') = None"
          by (rule no_fault[OF H2]) simp_all
        from nodes_Update_ok[OF this]
        obtain w3 where u: "nodes_Update n' w2 = (None, w3)" and f3: "faults w3 = faults w2"
          by (cases "nodes_Update n' w2") simp
        have H3: "\<forall>i c. faults w3 i c \<noteq> None \<longrightarrow>
             (\<exists>name. c = ListerGetNode name \<or> c = GetNode name)
             \<and> faults w3 i c = Some NotFound"
          using H2 f3 by simp
        from True p g Inr f u[unfolded n'_def]
        have "labelCandidateMachines (m # ms) w = labelCandidateMachines ms w3"
          by (simp add: nm_def)
        with Cons.IH[OF H3] f1 f2 f3 show ?thesis by simp
      qed
    qed
  qed
qed

lemma labelNodesBackingMachineSets_tolerant:
  assumes "\<forall>i c. faults w i c \<noteq> None \<longrightarrow>
             (\<exists>name. c = ListerGetNode name \<or> c = GetNode name) \<and> faults w i c = Some NotFound"
  shows "fst (labelNodesBackingMachineSets machineSets label w) = None"
  using assms
proof (induction machineSets arbitrary: w)
  case Nil
  show ?case by simp
next
  case (Cons x machineSets)
  note H = Cons.prems
  show ?case
  proof (cases x)
    case None
    with Cons.IH[OF H] show ?thesis by simp
  next
    case (Some machineSet)
    have "faults w (length (trace w)) (ListMachines (isSelector machineSet)) = None"
      by (rule no_fault[OF H]) simp_all
    from machineLister_List_ok[OF this] obtain ms where
      l: "machineLister_List (isSelector machineSet) w
            = (Inr ms, w\<lparr>trace := trace w @ [(ListMachines (isSelector machineSet), None)]\<rparr>)"
      by blast
    define w1 where "w1 = w\<lparr>trace := trace w @ [(ListMachines (isSelector machineSet), None)]\<rparr>"
    have H1: "\<forall>i c. faults w1 i c \<noteq> None \<longrightarrow>
               (\<exists>name. c = ListerGetNode name \<or> c = GetNode name) \<and> faults w1 i c = Some NotFound"
      using H by (simp add: w1_def)
    obtain w2 where c: "labelCandidateMachines ms w1 = (None, w2)" and f2: "faults w2 = faults w1"
      using labelCandidateMachines_tolerant[OF H1, of ms]
      by (cases "labelCandidateMachines ms w1") simp
    have H2: "\<forall>i c. faults w2 i c \<noteq> None \<longrightarrow>
               (\<exists>name. c = ListerGetNode name \<or> c = GetNode name) \<and> faults w2 i c = Some NotFound"
      using H1 f2 by simp
    from Some l[folded w1_def] c
    have "labelNodesBackingMachineSets (x # machineSets) label w
            = labelNodesBackingMachineSets machineSets label w2"
      by simp
    with Cons.IH[OF H2] show ?thesis by simp
  qed
qed

lemma markSelectedMachines_tolerant:
  assumes "\<forall>i c. faults w i c \<noteq> None \<longrightarrow>
             (\<exists>name. c = ListerGetNode name \<or> c = GetNode name) \<and> faults w i c = Some NotFound"
  shows "\<exists>flag' w'. markSelectedMachines ms flag w = (Inr flag', w') \<and> faults w' = faults w"
  using assms
proof (induction ms arbitrary: flag w)
  case Nil
  show ?case by simp
next
  case (Cons m ms)
  note H = Cons.prems
  show ?case
  proof (cases "lookupLabel (mLabels m) NodeLabelKey \<noteq> []")
    case False
    with Cons.IH[OF H] show ?thesis by simp
  next
    case True
    define nm where "nm = lookupLabel (mLabels m) NodeLabelKey"
    obtain x w1 where g: "nodes_Get nm w = (x, w1)" by (cases "nodes_Get nm w")
    have f1: "faults w1 = faults w" using nodes_Get_frame[of nm w] g by simp
    have H1: "\<forall>i c. faults w1 i c \<noteq> None \<longrightarrow>
             (\<exists>name. c = ListerGetNode name \<or> c = GetNode name) \<and> faults w1 i c = Some NotFound"
      using H f1 by simp
    show ?thesis
    proof (cases x)
      case (Inl err)
      with True g have "markSelectedMachines (m # ms) flag w = markSelectedMachines ms flag w1"
        by (simp add: nm_def)
      with Cons.IH[OF H1, of flag] f1 show ?thesis by simp
    next
      case (Inr n)
      show ?thesis
      proof (cases "map_of (nLabels n) LabelKeyMachineSelectedForUpdate = None")
        case t: True
        with True g Inr have "markSelectedMachines (m # ms) flag w = markSelectedMachines ms flag w1"
          by (simp add: nm_def)
        with Cons.IH[OF H1, of flag] f1 show ?thesis by simp
      next
        case f: False
        define c where "c = PatchMachine (mNamespace m) (mName m)
          (LabelsPatch (MergeStringMaps (mLabels m) [(LabelKeyMachineSelectedForUpdate, ''true'')]))"
        define w2 where "w2 = w1\<lparr>trace := trace w1 @ [(c, None)]\<rparr>"
        have "faults w1 (length (trace w1)) c = None"
          by (rule no_fault[OF H1]) (simp_all add: c_def)
        then have p: "machineControl_PatchMachine (mNamespace m) (mName m)
          (LabelsPatch (MergeStringMaps (mLabels m) [(LabelKeyMachineSelectedForUpdate, ''true'')])) w1
            = (None, w2)"
          unfolding c_def w2_def by (rule PatchMachine_ok)
        have f2: "faults w2 = faults w1" by (simp add: w2_def)
        have H2: "\<forall>i c. faults w2 i c \<noteq> None \<longrightarrow>
             (\<exists>name. c = ListerGetNode name \<or> c = GetNode name) \<and> faults w2 i c = Some NotFound"
          using H1 f2 by simp
        from f have f': "(map_of (nLabels n) LabelKeyMachineSelectedForUpdate = None) = False"
          by simp
        from True g Inr p
        have "markSelectedMachines (m # ms) flag w = markSelectedMachines ms True w2"
          by (simp add: nm_def f')
        with Cons.IH[OF H2, of True] f1 f2 show ?thesis by simp
      qed
    qed
  qed
qed

lemma markSelectedMachineSets_tolerant:
  assumes "\<forall>i c. faults w i c \<noteq> None \<longrightarrow>
             (\<exists>name. c = ListerGetNode name \<or> c = GetNode name) \<and> faults w i c = Some NotFound"
  shows "snd (fst (markSelectedMachineSets iSs flag w)) = None"
  using assms
proof (induction iSs arbitrary: flag w)
  case Nil
  show ?case by simp
next
  case (Cons g iSs)
  note H = Cons.prems
  show ?case
  proof (cases "isReplicas g = 0")
    case True
    with Cons.IH[OF H] show ?thesis by simp
  next
    case False
    have "faults w (length (trace w)) (ListMachines (isSelector g)) = None"
      by (rule no_fault[OF H]) simp_all
    from machineLister_List_ok[OF this] obtain ms where
      l: "machineLister_List (isSelector g) w
            = (Inr ms, w\<lparr>trace := trace w @ [(ListMachines (isSelector g), None)]\<rparr>)"
      by blast
    define w1 where "w1 = w\<lparr>trace := trace w @ [(ListMachines (isSelector g), None)]\<rparr>"
    have H1: "\<forall>i c. faults w1 i c \<noteq> None \<longrightarrow>
             (\<exists>name. c = ListerGetNode name \<or> c = GetNode name) \<and> faults w1 i c = Some NotFound"
      using H by (simp add: w1_def)
    from markSelectedMachines_tolerant[OF H1, of ms flag] obtain flag' w2 where
      m: "markSelectedMachines ms flag w1 = (Inr flag', w2)" and f2: "faults w2 = faults w1"
      by blast
    have H2: "\<forall>i c. faults w2 i c \<noteq> None \<longrightarrow>
             (\<exists>name. c = ListerGetNode name \<or> c = GetNode name) \<and> faults w2 i c = Some NotFound"
      using H1 f2 by simp
    from False l[folded w1_def] m
    have "markSelectedMachineSets (g # iSs) flag w = markSelectedMachineSets iSs flag' w2"
      by simp
    with Cons.IH[OF H2, of flag'] show ?thesis by simp
  qed
qed

text \<open>
  C9. For a machine that names a node: when \<open>labelNodesBackingMachineSets\<close> has
  patched the machine and the node lookup answers not-found, the loop goes on with the
  next machine from the state after the lookup; when the node lookup of
  \<open>getAndLabelMachinesSelectedForUpdate\<close> answers not-found, its loop goes on with
  the next machine, the flag unchanged. And when no call fails except node lookups that
  answer not-found, neither function returns an error.
\<close>

theorem C9_node_not_found_is_skipped:
  "(lookupLabel (mLabels machine) NodeLabelKey \<noteq> []
      \<and> machineControl_PatchMachine (mNamespace machine) (mName machine)
        (LabelsPatch (MergeStringMaps (mLabels machine)
           [(LabelKeyMachineCandidateForUpdate, ''true'')])) w = (None, w1)
      \<and> nodeLister_Get (lookupLabel (mLabels machine) NodeLabelKey) w1 = (Inl err, w2)
      \<and> IsNotFound err
      \<longrightarrow> labelCandidateMachines (machine # machines) w = labelCandidateMachines machines w2)
    \<and> (lookupLabel (mLabels machine) NodeLabelKey \<noteq> []
      \<and> nodes_Get (lookupLabel (mLabels machine) NodeLabelKey) w = (Inl err', w1')
      \<and> IsNotFound err'
      \<longrightarrow> markSelectedMachines (machine # machines) flag w = markSelectedMachines machines flag w1')
    \<and> ((\<forall>i c. faults w i c \<noteq> None \<longrightarrow>
             (\<exists>name. c = ListerGetNode name \<or> c = GetNode name) \<and> faults w i c = Some NotFound)
      \<longrightarrow> fst (labelNodesBackingMachineSets machineSets label w) = None
          \<and> snd (fst (getAndLabelMachinesSelectedForUpdate iSs w)) = None)"
  using labelNodesBackingMachineSets_tolerant[of w machineSets label]
    markSelectedMachineSets_tolerant[of w iSs False]
  by (simp add: getAndLabelMachinesSelectedForUpdate_def)

text \<open>The theorem on a cluster without nodes: every lookup answers not-found and both
  functions end without an error.\<close>

theorem C9_witness:
  "fst (labelCandidateMachines [ex_m1, ex_m2] ex_world) = None
   \<and> fst (markSelectedMachines [ex_m1, ex_m2] False ex_world) = Inr False
   \<and> fst (labelNodesBackingMachineSets [Some ex_old] [] ex_world) = None
   \<and> snd (fst (getAndLabelMachinesSelectedForUpdate [ex_old] ex_world)) = None"
proof -
  let ?p = "machineControl_PatchMachine (mNamespace ex_m1) (mName ex_m1)
        (LabelsPatch (MergeStringMaps (mLabels ex_m1)
           [(LabelKeyMachineCandidateForUpdate, ''true'')])) ex_world"
  let ?g = "nodeLister_Get (lookupLabel (mLabels ex_m1) NodeLabelKey) (snd ?p)"
  let ?g' = "nodes_Get (lookupLabel (mLabels ex_m1) NodeLabelKey) ex_world"
  have h: "lookupLabel (mLabels ex_m1) NodeLabelKey \<noteq> []"
    by (simp add: ex_defs model_defs)
  have p: "?p = (None, snd ?p)" by (simp add: ex_defs model_defs)
  have g: "?g = (Inl (ApiError NotFound), snd ?g)" by (simp add: ex_defs model_defs)
  have g': "?g' = (Inl (ApiError NotFound), snd ?g')" by (simp add: ex_defs model_defs)
  have f: "\<forall>i c. faults ex_world i c \<noteq> None \<longrightarrow>
             (\<exists>name. c = ListerGetNode name \<or> c = GetNode name)
             \<and> faults ex_world i c = Some NotFound"
    by (simp add: ex_world_def)
  note t = C9_node_not_found_is_skipped[where machine = ex_m1 and w = ex_world
      and ?w1.0 = "snd ?p" and err = "ApiError NotFound" and ?w2.0 = "snd ?g"
      and machines = "[ex_m2]" and err' = "ApiError NotFound" and w1' = "snd ?g'"
      and flag = False and machineSets = "[Some ex_old]" and label = "[]" and iSs = "[ex_old]"]
  from t h p g g' f
  have "labelCandidateMachines [ex_m1, ex_m2] ex_world = labelCandidateMachines [ex_m2] (snd ?g)"
    and "markSelectedMachines [ex_m1, ex_m2] False ex_world = markSelectedMachines [ex_m2] False (snd ?g')"
    and "fst (labelNodesBackingMachineSets [Some ex_old] [] ex_world) = None"
    and "snd (fst (getAndLabelMachinesSelectedForUpdate [ex_old] ex_world)) = None"
    by simp_all
  then show ?thesis by (simp add: ex_defs model_defs)
qed

end
